theory Spec2Isabelle
  imports Complex_Main "HOL-Library.AList"
begin

section \<open>Strings and numbers\<close>

text \<open>
  A JavaScript string is modelled as a \<open>string\<close> whose characters are its code units;
  a \<open>char\<close> holds a code unit below 256, so strings with other code units are outside
  the model. The helpers below are the string operations \<^verbatim>\<open>src/lib/http.ts\<close> uses:
  \<^verbatim>\<open>startsWith\<close>, \<^verbatim>\<open>includes\<close> and \<^verbatim>\<open>replace(/\/+$/, "")\<close>.
\<close>

definition startsWith :: "string \<Rightarrow> string \<Rightarrow> bool" where
  "startsWith s pre = (take (length pre) s = pre)"

fun includes_str :: "string \<Rightarrow> string \<Rightarrow> bool" where
  "includes_str [] sub = (sub = [])"
| "includes_str (c # cs) sub = (startsWith (c # cs) sub \<or> includes_str cs sub)"

text \<open>\<^verbatim>\<open>s.replace(/\/+$/, "")\<close>: the maximal run of slashes at the end is removed.\<close>

definition strip_trailing_slashes :: "string \<Rightarrow> string" where
  "strip_trailing_slashes s = rev (dropWhile (\<lambda>c. c = CHR ''/'') (rev s))"

definition digit_char :: "nat \<Rightarrow> char" where
  "digit_char d = ''0123456789'' ! d"

fun decimal_of_nat :: "nat \<Rightarrow> string" where
  "decimal_of_nat n =
     (if n < 10 then [digit_char n] else decimal_of_nat (n div 10) @ [digit_char (n mod 10)])"

text \<open>
  The decimal numeral of an integer. It is what a template literal prints for
  \<^verbatim>\<open>response.status\<close>, which the platform keeps an integer below 1000.
\<close>

definition decimal_of_int :: "int \<Rightarrow> string" where
  "decimal_of_int i =
     (if i < 0 then ''-'' @ decimal_of_nat (nat (- i)) else decimal_of_nat (nat i))"

definition ascii_lower :: "char \<Rightarrow> char" where
  "ascii_lower c =
     (let n = (of_char c :: nat) in if 65 \<le> n \<and> n \<le> 90 then char_of (n + 32) else c)"

definition lowercase :: "string \<Rightarrow> string" where
  "lowercase s = map ascii_lower s"

fun join :: "string \<Rightarrow> string list \<Rightarrow> string" where
  "join sep [] = []"
| "join sep [x] = x"
| "join sep (x # y # ys) = x @ sep @ join sep (y # ys)"

text \<open>
  A value of the type \<^verbatim>\<open>number\<close> that the client computes with (\<^verbatim>\<open>retries\<close>, the timeouts,
  a query value): a finite number, taken exactly, or \<^verbatim>\<open>NaN\<close>. The constructor checks
  nothing, so every such value can reach the client. The two infinities are left out:
  with \<^verbatim>\<open>retries = Infinity\<close> the loop has no bound and a call need not return, so
  every statement below that speaks of a number speaks of a finite one. The rounding of
  doubles is not modelled either: the attempt counter counts exactly. Arithmetic and
  comparison are JavaScript's: \<^verbatim>\<open>NaN\<close> propagates through \<^verbatim>\<open>+\<close>, \<^verbatim>\<open>-\<close> and \<^verbatim>\<open>Math.max\<close>, and
  every comparison with \<^verbatim>\<open>NaN\<close> is false.
\<close>

datatype number = Num real | NaN

fun plus_number :: "number \<Rightarrow> number \<Rightarrow> number" where
  "plus_number (Num a) (Num b) = Num (a + b)"
| "plus_number x y = NaN"

fun minus_number :: "number \<Rightarrow> number \<Rightarrow> number" where
  "minus_number (Num a) (Num b) = Num (a - b)"
| "minus_number x y = NaN"

fun Math_max :: "number \<Rightarrow> number \<Rightarrow> number" where
  "Math_max (Num a) (Num b) = Num (max a b)"
| "Math_max x y = NaN"

fun less_number :: "number \<Rightarrow> number \<Rightarrow> bool" where
  "less_number (Num a) (Num b) = (a < b)"
| "less_number x y = False"

section \<open>Plain objects and the store\<close>

text \<open>
  A \<^verbatim>\<open>Record<string, string>\<close> is an association list with distinct keys, in the order
  the properties are enumerated; \<^verbatim>\<open>{ ...a, ...b }\<close> copies the entries of \<open>a\<close> and then
  those of \<open>b\<close> into a fresh object, a later entry overwriting the value of an equal
  key in place.
\<close>

type_synonym plain_object = "(string \<times> string) list"

definition spread :: "plain_object \<Rightarrow> plain_object \<Rightarrow> plain_object" where
  "spread a b = fold (\<lambda>(k, v) acc. AList.update k v acc) (a @ b) []"

text \<open>
  Objects that the caller and the client may share live in a store: an address is an
  index into the list of cells, and allocation appends a cell. The constructor receives
  \<^verbatim>\<open>defaultHeaders\<close> and \<^verbatim>\<open>retryStatuses\<close> as references into this store. The array holds
  the integers among its elements: a response status is an integer, so no other
  element is ever found by \<^verbatim>\<open>Set.has\<close>.
\<close>

type_synonym addr = nat

datatype cell = ORecord plain_object | OArray "int list"

type_synonym heap = "cell list"

definition alloc :: "heap \<Rightarrow> cell \<Rightarrow> heap \<times> addr" where
  "alloc h c = (h @ [c], length h)"

definition heap_write :: "heap \<Rightarrow> addr \<Rightarrow> cell \<Rightarrow> heap" where
  "heap_write h p c = h[p := c]"

definition read_record :: "heap \<Rightarrow> addr \<Rightarrow> plain_object" where
  "read_record h p = (if p < length h then (case h ! p of ORecord kvs \<Rightarrow> kvs | OArray _ \<Rightarrow> []) else [])"

definition read_array :: "heap \<Rightarrow> addr \<Rightarrow> int list" where
  "read_array h p = (if p < length h then (case h ! p of OArray xs \<Rightarrow> xs | ORecord _ \<Rightarrow> []) else [])"

section \<open>The client and its constructor\<close>

record HTTPClientOptions =
  opt_baseUrl :: string
  opt_defaultHeaders :: "addr option"
  opt_retries :: "number option"
  opt_retryStatuses :: "addr option"
  opt_defaultTimeoutMs :: "number option"

text \<open>
  The fields of \<^verbatim>\<open>HttpClient\<close>. \<open>defaultHeaders\<close> holds the reference it was given;
  \<open>retryStatuses\<close> is the fresh \<^verbatim>\<open>Set\<close> built from the array's elements at construction
  time (its distinct elements in insertion order), which nothing else refers to.
\<close>

record HttpClient =
  baseUrl :: string
  defaultHeaders :: addr
  retries :: number
  retryStatuses :: "int list"
  defaultTimeoutMs :: number

definition new_Set :: "int list \<Rightarrow> int list" where
  "new_Set xs = rev (remdups (rev xs))"

definition Set_has :: "int list \<Rightarrow> int \<Rightarrow> bool" where
  "Set_has s x = (x \<in> set s)"

definition constructor :: "heap \<Rightarrow> HTTPClientOptions \<Rightarrow> heap \<times> HttpClient" where
  "constructor h opts =
     (let (h1, dh) = (case opt_defaultHeaders opts of
                        None \<Rightarrow> alloc h (ORecord [])
                      | Some p \<Rightarrow> (h, p));
          r = (case opt_retries opts of None \<Rightarrow> Num 2 | Some r \<Rightarrow> r);
          (h2, rs) = (case opt_retryStatuses opts of
                        None \<Rightarrow> alloc h1 (OArray [408, 429, 502, 503, 504])
                      | Some q \<Rightarrow> (h1, q));
          t = (case opt_defaultTimeoutMs opts of None \<Rightarrow> Num 5000 | Some t \<Rightarrow> t)
      in (h2, \<lparr> baseUrl = strip_trailing_slashes (opt_baseUrl opts),
                defaultHeaders = dh,
                retries = r,
                retryStatuses = new_Set (read_array h2 rs),
                defaultTimeoutMs = t \<rparr>))"

section \<open>Platform objects: Headers, URL, URLSearchParams, Response\<close>

text \<open>
  A thrown value, by what the client inspects of it: \<^verbatim>\<open>error?.name\<close>,
  \<^verbatim>\<open>error?.status\<close>, \<^verbatim>\<open>instanceof Error\<close> and \<^verbatim>\<open>instanceof TypeError\<close>, with the message
  and the response an \<^verbatim>\<open>HTTPError\<close> carries.
\<close>

type_synonym Headers = "(string \<times> string) list"

datatype json = JNull | JBool bool | JNum real | JStr string
  | JArr "json list" | JObj "(string \<times> json) list"

datatype parsed = Undefined | JsonData json | TextData string

record HttpResponse =
  resp_data :: parsed
  resp_status :: int
  resp_headers :: Headers

record thrown =
  err_name :: "string option"
  err_message :: string
  err_status :: "int option"
  err_response :: "HttpResponse option"
  instanceof_Error :: bool
  instanceof_TypeError :: bool

definition new_HTTPError :: "string \<Rightarrow> int option \<Rightarrow> HttpResponse option \<Rightarrow> thrown" where
  "new_HTTPError message st response =
     \<lparr> err_name = Some ''HTTPError'', err_message = message, err_status = st,
       err_response = response, instanceof_Error = True, instanceof_TypeError = False \<rparr>"

definition new_TypeError :: "string \<Rightarrow> thrown" where
  "new_TypeError message =
     \<lparr> err_name = Some ''TypeError'', err_message = message, err_status = None,
       err_response = None, instanceof_Error = True, instanceof_TypeError = True \<rparr>"

text \<open>The \<^verbatim>\<open>DOMException\<close> an aborted \<^verbatim>\<open>fetch\<close> rejects with when the timer fires.\<close>

definition AbortError :: thrown where
  "AbortError =
     \<lparr> err_name = Some ''AbortError'', err_message = ''This operation was aborted'',
       err_status = None, err_response = None, instanceof_Error = True,
       instanceof_TypeError = False \<rparr>"

text \<open>
  A \<^verbatim>\<open>Headers\<close> object is its header list, the names byte-lowercased, so that \<^verbatim>\<open>has\<close>,
  \<^verbatim>\<open>get\<close> and \<^verbatim>\<open>set\<close> are case-insensitive. As the platform does, \<^verbatim>\<open>new Headers\<close>,
  \<^verbatim>\<open>append\<close> and \<^verbatim>\<open>set\<close> first strip the value of leading and trailing HTTP whitespace
  (tab, line feed, carriage return, space) and then throw a \<^verbatim>\<open>TypeError\<close> unless the
  name is a token and the value is free of NUL, line feed and carriage return.
  \<^verbatim>\<open>has\<close> and \<^verbatim>\<open>get\<close> are only ever called with the literal names of the source.
\<close>

definition http_whitespace :: "char \<Rightarrow> bool" where
  "http_whitespace c = (let n = (of_char c :: nat) in n = 9 \<or> n = 10 \<or> n = 13 \<or> n = 32)"

definition normalize_value :: "string \<Rightarrow> string" where
  "normalize_value v = rev (dropWhile http_whitespace (rev (dropWhile http_whitespace v)))"

definition token_char :: "char \<Rightarrow> bool" where
  "token_char c =
     (let n = (of_char c :: nat) in
      (48 \<le> n \<and> n \<le> 57) \<or> (65 \<le> n \<and> n \<le> 90) \<or> (97 \<le> n \<and> n \<le> 122)
      \<or> n = 33 \<or> (35 \<le> n \<and> n \<le> 39) \<or> n = 42 \<or> n = 43 \<or> n = 45 \<or> n = 46
      \<or> n = 94 \<or> n = 95 \<or> n = 96 \<or> n = 124 \<or> n = 126)"

definition valid_header_name :: "string \<Rightarrow> bool" where
  "valid_header_name n = (n \<noteq> [] \<and> list_all token_char n)"

definition valid_header_value :: "string \<Rightarrow> bool" where
  "valid_header_value v =
     list_all (\<lambda>c. (of_char c :: nat) \<noteq> 0 \<and> (of_char c :: nat) \<noteq> 10 \<and> (of_char c :: nat) \<noteq> 13) v"

definition Headers_append :: "Headers \<Rightarrow> string \<Rightarrow> string \<Rightarrow> thrown + Headers" where
  "Headers_append hs n v =
     (let v' = normalize_value v in
      if valid_header_name n \<and> valid_header_value v' then Inr (hs @ [(lowercase n, v')])
      else Inl (new_TypeError ''Invalid header''))"

definition Headers_new :: "plain_object \<Rightarrow> thrown + Headers" where
  "Headers_new obj =
     fold (\<lambda>(k, v) r. case r of Inl e \<Rightarrow> Inl e | Inr hs \<Rightarrow> Headers_append hs k v) obj (Inr [])"

definition Headers_has :: "Headers \<Rightarrow> string \<Rightarrow> bool" where
  "Headers_has hs n = (lowercase n \<in> set (map fst hs))"

definition Headers_get :: "Headers \<Rightarrow> string \<Rightarrow> string option" where
  "Headers_get hs n =
     (case filter (\<lambda>kv. fst kv = lowercase n) hs of
        [] \<Rightarrow> None
      | kv # kvs \<Rightarrow> Some (join '', '' (map snd (kv # kvs))))"

fun set_first :: "string \<Rightarrow> string \<Rightarrow> Headers \<Rightarrow> Headers" where
  "set_first n v [] = []"
| "set_first n v (kv # hs) =
     (if fst kv = n then (n, v) # filter (\<lambda>kv'. fst kv' \<noteq> n) hs else kv # set_first n v hs)"

definition Headers_set :: "Headers \<Rightarrow> string \<Rightarrow> string \<Rightarrow> thrown + Headers" where
  "Headers_set hs n v =
     (let v' = normalize_value v in
      if valid_header_name n \<and> valid_header_value v'
      then Inr (if Headers_has hs n then set_first (lowercase n) v' hs
                else hs @ [(lowercase n, v')])
      else Inl (new_TypeError ''Invalid header''))"

text \<open>
  A \<^verbatim>\<open>Response\<close> as \<^verbatim>\<open>fetch\<close> resolves it. Reading the body happens later and can fail
  (a body that is not JSON, a connection reset, the timer firing during the read), so
  the outcomes of \<^verbatim>\<open>response.json()\<close> and \<^verbatim>\<open>response.text()\<close> are part of the value.
  \<^verbatim>\<open>response.ok\<close> is the platform's: the status is in the range 200 to 299.
\<close>

record Response =
  status :: int
  statusText :: string
  headers :: Headers
  json_outcome :: "thrown + json"
  text_outcome :: "thrown + string"

definition ok :: "Response \<Rightarrow> bool" where
  "ok r = (200 \<le> status r \<and> status r \<le> 299)"

text \<open>
  A \<^verbatim>\<open>URL\<close> object, as far as the client uses one: it is made by the platform's parser
  (a parameter of the model, see \<open>platform\<close> below), its \<^verbatim>\<open>search\<close> is assigned, and it
  is serialised. So a URL is kept as the serialisation of everything before the query
  (scheme, authority and path, as the parser normalised them), the query and the
  fragment, with the parser's verdicts on whether the scheme is a special one and
  whether the path is opaque (as in \<^verbatim>\<open>mailto:a/b\<close>).
\<close>

record URL =
  url_special :: bool
  url_opaque :: bool
  url_base :: string
  url_query :: "string option"
  url_fragment :: "string option"

text \<open>
  Percent-encoding. A code unit below 128 is one byte, one from 128 to 255 is the two
  bytes of its UTF-8 form.
\<close>

definition utf8 :: "char \<Rightarrow> nat list" where
  "utf8 c = (let n = (of_char c :: nat) in if n < 128 then [n] else [192 + n div 64, 128 + n mod 64])"

definition hex_digit :: "nat \<Rightarrow> char" where
  "hex_digit d = ''0123456789ABCDEF'' ! d"

definition percent_byte :: "nat \<Rightarrow> string" where
  "percent_byte b = [CHR ''%'', hex_digit (b div 16), hex_digit (b mod 16)]"

definition percent_encode :: "char \<Rightarrow> string" where
  "percent_encode c = concat (map percent_byte (utf8 c))"

text \<open>
  The \<^verbatim>\<open>search\<close> setter: the empty string removes the query and, when the path is
  opaque and there is no fragment, the spaces at the end of the path; otherwise one
  leading \<^verbatim>\<open>?\<close> is dropped, tabs and newlines are removed, and the rest becomes the
  query, percent-encoded with the query set (controls, space, the double quote, \<^verbatim>\<open>#\<close>,
  \<^verbatim>\<open><\<close>, \<^verbatim>\<open>>\<close>, code units above 126, and the apostrophe for a special scheme).
\<close>

definition strip_trailing_spaces :: "string \<Rightarrow> string" where
  "strip_trailing_spaces s = rev (dropWhile (\<lambda>c. c = CHR '' '') (rev s))"

definition in_query_set :: "bool \<Rightarrow> char \<Rightarrow> bool" where
  "in_query_set special c =
     (let n = (of_char c :: nat) in
      n \<le> 32 \<or> n > 126 \<or> n = 34 \<or> n = 35 \<or> n = 60 \<or> n = 62 \<or> (special \<and> n = 39))"

definition URL_set_search :: "URL \<Rightarrow> string \<Rightarrow> URL" where
  "URL_set_search u s =
     (if s = []
      then (if url_opaque u \<and> url_fragment u = None
            then u\<lparr>url_query := None, url_base := strip_trailing_spaces (url_base u)\<rparr>
            else u\<lparr>url_query := None\<rparr>)
      else
        (let s1 = (if hd s = CHR ''?'' then tl s else s);
             s2 = filter (\<lambda>c. (of_char c :: nat) \<noteq> 9 \<and> (of_char c :: nat) \<noteq> 10
                              \<and> (of_char c :: nat) \<noteq> 13) s1
         in u\<lparr>url_query :=
               Some (concat (map (\<lambda>c. if in_query_set (url_special u) c then percent_encode c
                                        else [c]) s2))\<rparr>))"

definition URL_toString :: "URL \<Rightarrow> string" where
  "URL_toString u =
     url_base u
       @ (case url_query u of None \<Rightarrow> [] | Some q \<Rightarrow> CHR ''?'' # q)
       @ (case url_fragment u of None \<Rightarrow> [] | Some f \<Rightarrow> CHR ''#'' # f)"

text \<open>
  \<^verbatim>\<open>URLSearchParams\<close>: a list of pairs, serialised as
  \<^verbatim>\<open>application/x-www-form-urlencoded\<close>: letters, digits and \<^verbatim>\<open>*-._\<close> stay, a space
  becomes \<^verbatim>\<open>+\<close>, every other byte is percent-encoded.
\<close>

type_synonym URLSearchParams = "(string \<times> string) list"

definition USP_append :: "URLSearchParams \<Rightarrow> string \<Rightarrow> string \<Rightarrow> URLSearchParams" where
  "USP_append params k v = params @ [(k, v)]"

definition urlencode_char :: "char \<Rightarrow> string" where
  "urlencode_char c =
     (let n = (of_char c :: nat) in
      if n = 42 \<or> n = 45 \<or> n = 46 \<or> n = 95 \<or> (48 \<le> n \<and> n \<le> 57)
           \<or> (65 \<le> n \<and> n \<le> 90) \<or> (97 \<le> n \<and> n \<le> 122) then [c]
      else if n = 32 then ''+''
      else percent_encode c)"

definition urlencode :: "string \<Rightarrow> string" where
  "urlencode s = concat (map urlencode_char s)"

definition USP_toString :: "URLSearchParams \<Rightarrow> string" where
  "USP_toString params = join ''&'' (map (\<lambda>(k, v). urlencode k @ ''='' @ urlencode v) params)"

section \<open>Requests\<close>

datatype HttpMethod = GET | POST | PUT | PATCH | DELETE

datatype qvalue = QString string | QNumber number | QBoolean bool | QUndefined

text \<open>
  \<^verbatim>\<open>RequestInitEx\<close>; an absent (\<^verbatim>\<open>undefined\<close>) field is \<open>None\<close>, and so is a \<^verbatim>\<open>null\<close>
  token. The per-call headers and the query are read once, when the call starts; the
  query is the list of entries \<^verbatim>\<open>Object.entries\<close> gives. The arguments of \<^verbatim>\<open>fetch\<close> are
  those the call computes; the \<^verbatim>\<open>signal\<close> of the attempt's controller is not among the
  fields, the event of an exchange names its attempt instead.
\<close>

record RequestInitEx =
  init_headers :: "plain_object option"
  init_query :: "(string \<times> qvalue) list option"
  init_json :: "json option"
  init_timeoutMs :: "number option"
  init_authToken :: "string option"
  init_cache :: "string option"

record fetch_args =
  fa_url :: string
  fa_method :: HttpMethod
  fa_headers :: Headers
  fa_body :: "string option"
  fa_cache :: "string option"

datatype fetch_outcome = Resolved Response | Rejected thrown

text \<open>
  What the client is given by its environment: the identifier \<^verbatim>\<open>randomUUID()\<close> returns,
  the number \<^verbatim>\<open>Math.random()\<close> returns during the backoff of each attempt, the outcome
  of the \<open>n\<close>-th \<^verbatim>\<open>fetch\<close> of a call (a response, or the rejection when the timer
  aborts it, the network fails or the arguments are refused), \<^verbatim>\<open>JSON.stringify\<close>
  (taken to return a string: bodies that cannot be serialised are outside the model),
  the parser behind \<^verbatim>\<open>new URL(...)\<close> (a URL, or the \<^verbatim>\<open>TypeError\<close> for a string that is
  not one) and \<^verbatim>\<open>String(n)\<close> for a number. Nothing is assumed of any of them: a
  theorem that needs a fact about the environment states it. Time is not modelled:
  whether a timer fires before the response arrives is part of the outcome the
  environment gives.
\<close>

record platform =
  randomUUID :: string
  Math_random :: "nat \<Rightarrow> real"
  fetch :: "nat \<Rightarrow> fetch_args \<Rightarrow> fetch_outcome"
  JSON_stringify :: "json \<Rightarrow> string"
  new_URL :: "string \<Rightarrow> thrown + URL"
  Number_toString :: "number \<Rightarrow> string"

text \<open>
  The calls a request makes to its environment, in order. A timer is named by the
  attempt that armed it. \<open>PostLoopThrow\<close> marks the \<^verbatim>\<open>throw\<close> after the loop.
\<close>

datatype event =
    is_CallRandomUUID: CallRandomUUID string
  | is_SetTimeout: SetTimeout nat number
  | is_CallFetch: CallFetch nat fetch_args
  | is_Sleep: Sleep nat int
  | is_ClearTimeout: ClearTimeout nat
  | PostLoopThrow

fun String_of :: "platform \<Rightarrow> qvalue \<Rightarrow> string" where
  "String_of p (QString s) = s"
| "String_of p (QNumber n) = Number_toString p n"
| "String_of p (QBoolean b) = (if b then ''true'' else ''false'')"
| "String_of p QUndefined = ''undefined''"

definition buildUrl ::
  "HttpClient \<Rightarrow> platform \<Rightarrow> string \<Rightarrow> (string \<times> qvalue) list option \<Rightarrow> thrown + string" where
  "buildUrl c p path query =
     (case new_URL p (baseUrl c @ (if startsWith path ''/'' then path else ''/'' @ path)) of
        Inl e \<Rightarrow> Inl e
      | Inr url \<Rightarrow>
          Inr (URL_toString
            (case query of
               None \<Rightarrow> url
             | Some q \<Rightarrow>
                 URL_set_search url
                   (USP_toString
                     (fold (\<lambda>(key, v) params.
                              if v \<noteq> QUndefined then USP_append params key (String_of p v)
                              else params) q [])))))"

text \<open>
  \<^verbatim>\<open>if (init.authToken)\<close> tests truthiness: \<^verbatim>\<open>null\<close>, \<^verbatim>\<open>undefined\<close> and the empty string
  fail it.
\<close>

definition truthy :: "string option \<Rightarrow> bool" where
  "truthy t = (case t of None \<Rightarrow> False | Some s \<Rightarrow> s \<noteq> [])"

text \<open>
  \<^verbatim>\<open>buildHeaders\<close>. The spread \<^verbatim>\<open>{ ...this.defaultHeaders, ...init.headers }\<close> reads the
  client's header object from the store and allocates a fresh object;
  \<^verbatim>\<open>new Headers(...)\<close> copies its entries into the header list, which only this call
  holds. A \<^verbatim>\<open>TypeError\<close> of \<^verbatim>\<open>new Headers\<close> or of a \<^verbatim>\<open>set\<close> ends the function where
  it is thrown. The call to \<^verbatim>\<open>randomUUID\<close> is recorded as an event.
\<close>

definition buildHeaders ::
  "heap \<Rightarrow> HttpClient \<Rightarrow> platform \<Rightarrow> RequestInitEx \<Rightarrow> heap \<times> event list \<times> (thrown + Headers)" where
  "buildHeaders h c p init =
     (let (h1, a) = alloc h (ORecord (spread (read_record h (defaultHeaders c))
                                (case init_headers init of None \<Rightarrow> [] | Some hs \<Rightarrow> hs)))
      in case Headers_new (read_record h1 a) of
           Inl e \<Rightarrow> (h1, [], Inl e)
         | Inr headers0 \<Rightarrow>
             (let (evs, r1) =
                    (if \<not> Headers_has headers0 ''x-request-id''
                     then ([CallRandomUUID (randomUUID p)],
                           Headers_set headers0 ''x-request-id'' (randomUUID p))
                     else ([], Inr headers0))
              in case r1 of
                   Inl e \<Rightarrow> (h1, evs, Inl e)
                 | Inr headers1 \<Rightarrow>
                     (case (if truthy (init_authToken init)
                            then Headers_set headers1 ''Authorization''
                                   (''Bearer '' @ the (init_authToken init))
                            else Inr headers1) of
                        Inl e \<Rightarrow> (h1, evs, Inl e)
                      | Inr headers2 \<Rightarrow>
                          (h1, evs,
                           if init_json init \<noteq> None \<and> \<not> Headers_has headers2 ''Content-Type''
                           then Headers_set headers2 ''Content-Type'' ''application/json''
                           else Inr headers2))))"

definition parseResponse :: "Response \<Rightarrow> thrown + parsed" where
  "parseResponse response =
     (let contentType = (case Headers_get (headers response) ''content-type'' of
                           None \<Rightarrow> [] | Some v \<Rightarrow> v)
      in if status response = 204 then Inr Undefined
         else if includes_str contentType ''application/json''
         then (case json_outcome response of Inl e \<Rightarrow> Inl e | Inr j \<Rightarrow> Inr (JsonData j))
         else (case text_outcome response of Inl e \<Rightarrow> Inl e | Inr t \<Rightarrow> Inr (TextData t)))"

text \<open>
  The attempt counter is a whole number; \<^verbatim>\<open>maxAttempts\<close> is whatever
  \<^verbatim>\<open>Math.max(1, this.retries + 1)\<close> gave, \<^verbatim>\<open>NaN\<close> included.
\<close>

definition shouldRetry :: "HttpClient \<Rightarrow> int \<Rightarrow> nat \<Rightarrow> number \<Rightarrow> bool" where
  "shouldRetry c st attempt maxAttempts =
     (Set_has (retryStatuses c) st
      \<and> less_number (Num (real attempt)) (minus_number maxAttempts (Num 1)))"

definition isNetworkError :: "thrown \<Rightarrow> bool" where
  "isNetworkError error = (instanceof_TypeError error \<or> err_name error = Some ''FetchError'')"

definition shouldRetryError :: "thrown \<Rightarrow> nat \<Rightarrow> number \<Rightarrow> bool" where
  "shouldRetryError error attempt maxAttempts =
     (let isAbortError = (err_name error = Some ''AbortError'' \<or> err_status error = Some 408)
      in less_number (Num (real attempt)) (minus_number maxAttempts (Num 1))
         \<and> (isAbortError \<or> isNetworkError error))"

text \<open>
  The delay \<^verbatim>\<open>backoff(attempt)\<close> sleeps, from the number \<open>u\<close> that \<^verbatim>\<open>Math.random()\<close>
  returned. Arithmetic is exact (the rounding of doubles is not modelled).
\<close>

definition backoff_delay :: "real \<Rightarrow> nat \<Rightarrow> int" where
  "backoff_delay u attempt =
     (let base = 300; cap = 4000;
          maxDelay = min cap (base * 2 ^ attempt)
      in \<lfloor>u * real_of_int (maxDelay + 1)\<rfloor>)"

definition backoff :: "platform \<Rightarrow> nat \<Rightarrow> event list" where
  "backoff p attempt = [Sleep attempt (backoff_delay (Math_random p attempt) attempt)]"

text \<open>How control leaves one pass through the \<^verbatim>\<open>try\<close> statement of the loop.\<close>

datatype completion = Return HttpResponse | Continue | Throw thrown

definition try_block ::
  "HttpClient \<Rightarrow> platform \<Rightarrow> fetch_args \<Rightarrow> number \<Rightarrow> nat \<Rightarrow> event list \<times> completion" where
  "try_block c p args maxAttempts attempt =
     (case fetch p attempt args of
        Rejected e \<Rightarrow> ([CallFetch attempt args], Throw e)
      | Resolved response \<Rightarrow>
          if shouldRetry c (status response) attempt maxAttempts
          then (CallFetch attempt args # backoff p attempt, Continue)
          else (case parseResponse response of
                  Inl e \<Rightarrow> ([CallFetch attempt args], Throw e)
                | Inr d \<Rightarrow>
                    if \<not> ok response
                    then ([CallFetch attempt args],
                          Throw (new_HTTPError
                            (''HTTP '' @ decimal_of_int (status response) @ '' '' @ statusText response)
                            (Some (status response))
                            (Some \<lparr> resp_data = d, resp_status = status response,
                                    resp_headers = headers response \<rparr>)))
                    else ([CallFetch attempt args],
                          Return \<lparr> resp_data = d, resp_status = status response,
                                   resp_headers = headers response \<rparr>)))"

definition catch_block :: "platform \<Rightarrow> number \<Rightarrow> nat \<Rightarrow> thrown \<Rightarrow> event list \<times> completion" where
  "catch_block p maxAttempts attempt error =
     (if shouldRetryError error attempt maxAttempts then (backoff p attempt, Continue)
      else ([], Throw (if instanceof_Error error then error
                       else new_HTTPError ''Unknown HTTP error'' None None)))"

text \<open>
  One iteration: arm the timer, run the \<^verbatim>\<open>try\<close> block, run the \<^verbatim>\<open>catch\<close> block on a
  throw (recording \<^verbatim>\<open>lastError\<close>), and run \<^verbatim>\<open>finally\<close> last, whichever way control leaves.
\<close>

definition attempt_body ::
  "HttpClient \<Rightarrow> platform \<Rightarrow> RequestInitEx \<Rightarrow> fetch_args \<Rightarrow> number \<Rightarrow> nat \<Rightarrow> thrown option
     \<Rightarrow> event list \<times> completion \<times> thrown option" where
  "attempt_body c p init args maxAttempts attempt lastError =
     (let timeout = SetTimeout attempt
                      (case init_timeoutMs init of None \<Rightarrow> defaultTimeoutMs c | Some t \<Rightarrow> t);
          (evs, r) = try_block c p args maxAttempts attempt
      in case r of
           Throw error \<Rightarrow>
             (let (evs', r') = catch_block p maxAttempts attempt error
              in (timeout # evs @ evs' @ [ClearTimeout attempt], r', Some error))
         | Return response \<Rightarrow> (timeout # evs @ [ClearTimeout attempt], r, lastError)
         | Continue \<Rightarrow> (timeout # evs @ [ClearTimeout attempt], r, lastError))"

text \<open>
  The \<^verbatim>\<open>for\<close> loop of \<^verbatim>\<open>request\<close>, from the attempt index and \<^verbatim>\<open>lastError\<close> it has
  reached, with the \<^verbatim>\<open>throw\<close> that follows the loop. The result is the trace and
  either the thrown value or the returned response. The loop test \<^verbatim>\<open>attempt < maxAttempts\<close>
  fails at once when \<^verbatim>\<open>maxAttempts\<close> is \<^verbatim>\<open>NaN\<close>.
\<close>

function attempt_loop ::
  "HttpClient \<Rightarrow> platform \<Rightarrow> RequestInitEx \<Rightarrow> fetch_args \<Rightarrow> number \<Rightarrow> nat \<Rightarrow> thrown option
     \<Rightarrow> event list \<times> (thrown + HttpResponse)" where
  "attempt_loop c p init args maxAttempts attempt lastError =
     (if less_number (Num (real attempt)) maxAttempts then
        (case attempt_body c p init args maxAttempts attempt lastError of
           (evs, Return response, _) \<Rightarrow> (evs, Inr response)
         | (evs, Throw error, _) \<Rightarrow> (evs, Inl error)
         | (evs, Continue, lastError') \<Rightarrow>
             (case attempt_loop c p init args maxAttempts (Suc attempt) lastError' of
                (evs', out) \<Rightarrow> (evs @ evs', out)))
      else ([PostLoopThrow],
            Inl (case lastError of
                   None \<Rightarrow> new_HTTPError ''Request failed'' None None
                 | Some e \<Rightarrow> if instanceof_Error e then e
                             else new_HTTPError ''Request failed'' None None)))"
  by pat_completeness auto
termination
proof (relation "measure (\<lambda>(c, p, init, args, maxAttempts, attempt, lastError).
                   case maxAttempts of NaN \<Rightarrow> 0 | Num m \<Rightarrow> nat \<lceil>m - real attempt\<rceil>)")
  show "wf (measure (\<lambda>(c, p, init, args, maxAttempts, attempt, lastError).
                   case maxAttempts of NaN \<Rightarrow> 0 | Num m \<Rightarrow> nat \<lceil>m - real attempt\<rceil>))"
    by simp
next
  fix c :: HttpClient and p :: platform and init :: RequestInitEx and args :: fetch_args
    and maxAttempts :: number and attempt :: nat
  assume "less_number (Num (real attempt)) maxAttempts"
  then obtain m where m: "maxAttempts = Num m" "real attempt < m"
    by (cases maxAttempts) auto
  have "\<lceil>m - real (Suc attempt)\<rceil> = \<lceil>m - real attempt\<rceil> - 1"
    by (simp add: algebra_simps) linarith
  moreover have "0 < \<lceil>m - real attempt\<rceil>" using m(2) by simp
  ultimately have "nat \<lceil>m - real (Suc attempt)\<rceil> < nat \<lceil>m - real attempt\<rceil>" by linarith
  then show "\<And>lastError x y z. ((c, p, init, args, maxAttempts, Suc attempt, z),
           c, p, init, args, maxAttempts, attempt, lastError)
          \<in> measure (\<lambda>(c, p, init, args, maxAttempts, attempt, lastError).
                   case maxAttempts of NaN \<Rightarrow> 0 | Num m \<Rightarrow> nat \<lceil>m - real attempt\<rceil>)"
    by (simp add: m)
qed

text \<open>
  \<^verbatim>\<open>request\<close>: the URL, the headers and the body are computed first (a URL that does
  not parse, or a header the platform refuses, throws before anything else happens),
  then the loop runs from attempt 0. The result also carries the store as the call
  leaves it.
\<close>

record request_result =
  res_heap :: heap
  res_trace :: "event list"
  res_outcome :: "thrown + HttpResponse"

definition request ::
  "heap \<Rightarrow> HttpClient \<Rightarrow> platform \<Rightarrow> HttpMethod \<Rightarrow> string \<Rightarrow> RequestInitEx \<Rightarrow> request_result" where
  "request h c p method path init =
     (case buildUrl c p path (init_query init) of
        Inl e \<Rightarrow> \<lparr> res_heap = h, res_trace = [], res_outcome = Inl e \<rparr>
      | Inr url \<Rightarrow>
          (case buildHeaders h c p init of
             (h1, evs, Inl e) \<Rightarrow> \<lparr> res_heap = h1, res_trace = evs, res_outcome = Inl e \<rparr>
           | (h1, evs, Inr hdrs) \<Rightarrow>
               (let body = map_option (JSON_stringify p) (init_json init);
                    maxAttempts = Math_max (Num 1) (plus_number (retries c) (Num 1));
                    (evs', out) = attempt_loop c p init
                                    \<lparr> fa_url = url, fa_method = method, fa_headers = hdrs,
                                      fa_body = body, fa_cache = init_cache init \<rparr>
                                    maxAttempts 0 None
                in \<lparr> res_heap = h1, res_trace = evs @ evs', res_outcome = out \<rparr>)))"

section \<open>Observing a trace\<close>

text \<open>The number of attempts of a call is the number of exchanges it issued.\<close>

definition attempts :: "event list \<Rightarrow> nat" where
  "attempts tr = length (filter is_CallFetch tr)"

text \<open>The arguments of the exchanges, in order.\<close>

fun fetched :: "event list \<Rightarrow> fetch_args list" where
  "fetched [] = []"
| "fetched (CallFetch n a # es) = a # fetched es"
| "fetched (e # es) = fetched es"

text \<open>
  The timer discipline, checked along a trace from the list of armed timers: arming a
  timer that is armed, or clearing one that is not (a second release, or a release
  with no acquisition), is \<open>None\<close>; otherwise the result is the timers still armed.
\<close>

fun timers :: "event list \<Rightarrow> nat list \<Rightarrow> nat list option" where
  "timers [] armed = Some armed"
| "timers (SetTimeout k ms # es) armed =
     (if k \<in> set armed then None else timers es (k # armed))"
| "timers (ClearTimeout k # es) armed =
     (if k \<in> set armed then timers es (removeAll k armed) else None)"
| "timers (e # es) armed = timers es armed"

definition armed_count :: "event list \<Rightarrow> nat" where
  "armed_count tr = length (filter is_SetTimeout tr)"

definition cleared_count :: "event list \<Rightarrow> nat" where
  "cleared_count tr = length (filter is_ClearTimeout tr)"


text \<open>The \<^verbatim>\<open>HTTPError\<close> the \<^verbatim>\<open>try\<close> block throws for a response that is not ok.\<close>

definition status_error :: "Response \<Rightarrow> parsed \<Rightarrow> thrown" where
  "status_error r d =
     new_HTTPError (''HTTP '' @ decimal_of_int (status r) @ '' '' @ statusText r)
       (Some (status r))
       (Some \<lparr> resp_data = d, resp_status = status r, resp_headers = headers r \<rparr>)"


text \<open>
  The argument \<^verbatim>\<open>request\<close> passes to \<^verbatim>\<open>fetch\<close>, from the values it computes first, or
  what it throws before the loop when the URL or the headers are refused.
\<close>

definition call_args ::
  "heap \<Rightarrow> HttpClient \<Rightarrow> platform \<Rightarrow> HttpMethod \<Rightarrow> string \<Rightarrow> RequestInitEx \<Rightarrow> thrown + fetch_args" where
  "call_args h c p method path init =
     (case buildUrl c p path (init_query init) of
        Inl e \<Rightarrow> Inl e
      | Inr url \<Rightarrow>
          (case snd (snd (buildHeaders h c p init)) of
             Inl e \<Rightarrow> Inl e
           | Inr hdrs \<Rightarrow>
               Inr \<lparr> fa_url = url, fa_method = method, fa_headers = hdrs,
                     fa_body = map_option (JSON_stringify p) (init_json init),
                     fa_cache = init_cache init \<rparr>))"

text \<open>Whether the defaults or the per-call headers already supply a request id.\<close>

definition supplied_request_id :: "heap \<Rightarrow> HttpClient \<Rightarrow> RequestInitEx \<Rightarrow> bool" where
  "supplied_request_id h c init =
     (case Headers_new (spread (read_record h (defaultHeaders c))
                          (case init_headers init of None \<Rightarrow> [] | Some hs \<Rightarrow> hs)) of
        Inl e \<Rightarrow> False
      | Inr hs \<Rightarrow> Headers_has hs ''x-request-id'')"

text \<open>
  The query pairs as the specification words them: the keys whose value is defined, in
  order, each value converted with \<^verbatim>\<open>String\<close>.
\<close>

definition defined_query_pairs ::
  "platform \<Rightarrow> (string \<times> qvalue) list \<Rightarrow> (string \<times> string) list" where
  "defined_query_pairs p q =
     map (\<lambda>(k, v). (k, String_of p v)) (filter (\<lambda>(k, v). v \<noteq> QUndefined) q)"

text \<open>
  The serialiser of \<^verbatim>\<open>URLSearchParams\<close> writes only letters, digits and
  \<^verbatim>\<open>*-._+%=&\<close>, none of which the \<^verbatim>\<open>search\<close> setter touches.
\<close>

definition form_char :: "char \<Rightarrow> bool" where
  "form_char c =
     (let n = (of_char c :: nat) in
      (48 \<le> n \<and> n \<le> 57) \<or> (65 \<le> n \<and> n \<le> 90) \<or> (97 \<le> n \<and> n \<le> 122)
      \<or> n = 42 \<or> n = 45 \<or> n = 46 \<or> n = 95 \<or> n = 43 \<or> n = 37 \<or> n = 61 \<or> n = 38)"

section \<open>Concrete inputs\<close>

text \<open>
  A client built with the defaults, and environments that follow a script. The URL
  parser of these environments gives the platform's answers for the three strings the
  examples below build (two that need no normalisation, one whose space the platform
  percent-encodes) and refuses every other string; \<^verbatim>\<open>String\<close> prints the whole
  numbers the examples use in decimal.
\<close>

definition example_options :: HTTPClientOptions where
  "example_options =
     \<lparr> opt_baseUrl = ''https://x.test/'', opt_defaultHeaders = None, opt_retries = None,
       opt_retryStatuses = None, opt_defaultTimeoutMs = None \<rparr>"

definition example_heap :: heap where
  "example_heap = fst (constructor [] example_options)"

definition example_client :: HttpClient where
  "example_client = snd (constructor [] example_options)"

definition example_init :: RequestInitEx where
  "example_init =
     \<lparr> init_headers = None, init_query = None, init_json = None, init_timeoutMs = None,
       init_authToken = None, init_cache = None \<rparr>"

definition example_response :: "int \<Rightarrow> string \<Rightarrow> Response" where
  "example_response st body =
     \<lparr> status = st, statusText = ''Status'', headers = [(''content-type'', ''text/plain'')],
       json_outcome = Inl (new_TypeError ''not JSON''), text_outcome = Inr body \<rparr>"

definition example_new_URL :: "string \<Rightarrow> thrown + URL" where
  "example_new_URL s =
     (if s = ''https://x.test/a'' \<or> s = ''https://x.test/foo''
      then Inr \<lparr> url_special = True, url_opaque = False, url_base = s, url_query = None,
                 url_fragment = None \<rparr>
      else if s = ''https://x.test/a b''
      then Inr \<lparr> url_special = True, url_opaque = False, url_base = ''https://x.test/a%20b'',
                 url_query = None, url_fragment = None \<rparr>
      else Inl (new_TypeError ''Invalid URL''))"

definition example_Number_toString :: "number \<Rightarrow> string" where
  "example_Number_toString n = (case n of NaN \<Rightarrow> ''NaN'' | Num r \<Rightarrow> decimal_of_int \<lfloor>r\<rfloor>)"

definition scripted_platform :: "(nat \<Rightarrow> fetch_outcome) \<Rightarrow> platform" where
  "scripted_platform script =
     \<lparr> randomUUID = ''123e4567-e89b-42d3-a456-426614174000'', Math_random = (\<lambda>n. 1 / 2),
       fetch = (\<lambda>n a. script n), JSON_stringify = (\<lambda>j. ''null''),
       new_URL = example_new_URL, Number_toString = example_Number_toString \<rparr>"

text \<open>What the example calls (a \<^verbatim>\<open>GET\<close> of \<^verbatim>\<open>/a\<close> with no options) pass to \<^verbatim>\<open>fetch\<close>.\<close>

definition example_args :: fetch_args where
  "example_args =
     \<lparr> fa_url = ''https://x.test/a'', fa_method = GET,
       fa_headers = [(''x-request-id'', ''123e4567-e89b-42d3-a456-426614174000'')],
       fa_body = None, fa_cache = None \<rparr>"

text \<open>
  A client constructed with a caller-supplied array of retry statuses and a whole
  number of retries, and the default client with \<^verbatim>\<open>retries: NaN\<close>.
\<close>

definition custom_options :: "int \<Rightarrow> HTTPClientOptions" where
  "custom_options r =
     \<lparr> opt_baseUrl = ''https://x.test'', opt_defaultHeaders = None,
       opt_retries = Some (Num (real_of_int r)),
       opt_retryStatuses = Some 0, opt_defaultTimeoutMs = None \<rparr>"

definition custom_heap :: "int list \<Rightarrow> int \<Rightarrow> heap" where
  "custom_heap statuses r = fst (constructor [OArray statuses] (custom_options r))"

definition custom_client :: "int list \<Rightarrow> int \<Rightarrow> HttpClient" where
  "custom_client statuses r = snd (constructor [OArray statuses] (custom_options r))"

definition nan_heap :: heap where
  "nan_heap = fst (constructor [] (example_options\<lparr>opt_retries := Some NaN\<rparr>))"

definition nan_client :: HttpClient where
  "nan_client = snd (constructor [] (example_options\<lparr>opt_retries := Some NaN\<rparr>))"

text \<open>
  A caller that keeps its own header object (address 0) and its own array of retry
  statuses (address 1) and hands both to the constructor.
\<close>

definition shared_heap :: heap where
  "shared_heap = [ORecord [(''x-api-key'', ''old'')], OArray [500]]"

definition shared_options :: HTTPClientOptions where
  "shared_options =
     \<lparr> opt_baseUrl = ''https://x.test'', opt_defaultHeaders = Some 0, opt_retries = Some (Num 1),
       opt_retryStatuses = Some 1, opt_defaultTimeoutMs = None \<rparr>"

definition shared_client :: HttpClient where
  "shared_client = snd (constructor shared_heap shared_options)"

section \<open>The attempt loop, one iteration at a time\<close>

declare attempt_loop.simps [simp del]

lemma less_number_Num: "less_number (Num x) M = (\<exists>m. M = Num m \<and> x < m)"
  by (cases M) auto

lemma less_minus_number:
  "less_number (Num x) (minus_number M (Num 1)) = (\<exists>m. M = Num m \<and> x < m - 1)"
  by (cases M) auto

lemma remaining_step: "real a < m \<Longrightarrow> Suc (nat \<lceil>m - real (Suc a)\<rceil>) = nat \<lceil>m - real a\<rceil>"
proof -
  assume lt: "real a < m"
  have "\<lceil>m - real (Suc a)\<rceil> = \<lceil>m - real a\<rceil> - 1"
    by (simp add: algebra_simps) linarith
  moreover have "0 < \<lceil>m - real a\<rceil>" using lt by simp
  ultimately show ?thesis by linarith
qed


lemma attempt_body_trace:
  "fst (attempt_body c p init args M a le) =
     SetTimeout a (case init_timeoutMs init of None \<Rightarrow> defaultTimeoutMs c | Some t \<Rightarrow> t)
       # CallFetch a args
       # (if fst (snd (attempt_body c p init args M a le)) = Continue then backoff p a else [])
       @ [ClearTimeout a]"
  by (auto simp: attempt_body_def try_block_def catch_block_def Let_def
      split: fetch_outcome.splits sum.splits completion.splits prod.splits)

lemma attempt_body_Continue:
  "fst (snd (attempt_body c p init args M a le)) = Continue \<Longrightarrow>
   less_number (Num (real a)) (minus_number M (Num 1))"
  by (auto simp: attempt_body_def try_block_def catch_block_def Let_def shouldRetry_def
      shouldRetryError_def
      split: fetch_outcome.splits sum.splits completion.splits prod.splits if_splits)

lemma Continue_next:
  "fst (snd (attempt_body c p init args M a le)) = Continue \<Longrightarrow>
   less_number (Num (real (Suc a))) M"
  by (drule attempt_body_Continue) (auto simp: less_minus_number)

lemma loop_exit:
  "\<not> less_number (Num (real a)) M \<Longrightarrow> attempt_loop c p init args M a le =
     ([PostLoopThrow],
      Inl (case le of None \<Rightarrow> new_HTTPError ''Request failed'' None None
           | Some e \<Rightarrow> if instanceof_Error e then e else new_HTTPError ''Request failed'' None None))"
  by (subst attempt_loop.simps) simp

lemma loop_Return:
  "less_number (Num (real a)) M \<Longrightarrow> fst (snd (attempt_body c p init args M a le)) = Return r \<Longrightarrow>
   attempt_loop c p init args M a le = (fst (attempt_body c p init args M a le), Inr r)"
  by (subst attempt_loop.simps) (auto split: prod.splits completion.splits)

lemma loop_Throw:
  "less_number (Num (real a)) M \<Longrightarrow> fst (snd (attempt_body c p init args M a le)) = Throw e \<Longrightarrow>
   attempt_loop c p init args M a le = (fst (attempt_body c p init args M a le), Inl e)"
  by (subst attempt_loop.simps) (auto split: prod.splits completion.splits)

lemma loop_Continue:
  "less_number (Num (real a)) M \<Longrightarrow> fst (snd (attempt_body c p init args M a le)) = Continue \<Longrightarrow>
   attempt_loop c p init args M a le =
     (fst (attempt_body c p init args M a le)
        @ fst (attempt_loop c p init args M (Suc a) (snd (snd (attempt_body c p init args M a le)))),
      snd (attempt_loop c p init args M (Suc a) (snd (snd (attempt_body c p init args M a le)))))"
  by (subst attempt_loop.simps) (auto split: prod.splits completion.splits)

text \<open>
  Induction along the loop: a property holds of the loop from any attempt if it holds
  where the loop test fails, where an attempt returns or throws, and where an attempt
  continues given that it holds from the next attempt.
\<close>

lemma attempt_loop_induct:
  assumes stop: "\<And>a le. \<not> less_number (Num (real a)) M \<Longrightarrow> P a le"
      and ret: "\<And>a le r. less_number (Num (real a)) M \<Longrightarrow>
                  fst (snd (attempt_body c p init args M a le)) = Return r \<Longrightarrow> P a le"
      and thr: "\<And>a le e. less_number (Num (real a)) M \<Longrightarrow>
                  fst (snd (attempt_body c p init args M a le)) = Throw e \<Longrightarrow> P a le"
      and cont: "\<And>a le. less_number (Num (real a)) M \<Longrightarrow>
                  fst (snd (attempt_body c p init args M a le)) = Continue \<Longrightarrow>
                  P (Suc a) (snd (snd (attempt_body c p init args M a le))) \<Longrightarrow> P a le"
  shows "P a le"
proof (induction "case M of NaN \<Rightarrow> 0 | Num m \<Rightarrow> nat \<lceil>m - real a\<rceil>" arbitrary: a le)
  case (0 a le)
  have "\<not> less_number (Num (real a)) M"
  proof
    assume "less_number (Num (real a)) M"
    then obtain m where m: "M = Num m" "real a < m" by (auto simp: less_number_Num)
    then have "0 < \<lceil>m - real a\<rceil>" by simp
    with 0 m(1) show False by simp
  qed
  then show ?case by (rule stop)
next
  case (Suc n a le)
  show ?case
  proof (cases "less_number (Num (real a)) M")
    case False
    then show ?thesis by (rule stop)
  next
    case True
    then obtain m where m: "M = Num m" "real a < m" by (auto simp: less_number_Num)
    show ?thesis
    proof (cases "fst (snd (attempt_body c p init args M a le))")
      case (Return r)
      with True show ?thesis by (rule ret)
    next
      case (Throw e)
      with True show ?thesis by (rule thr)
    next
      case Continue
      have "n = (case M of NaN \<Rightarrow> 0 | Num m \<Rightarrow> nat \<lceil>m - real (Suc a)\<rceil>)"
        using Suc.hyps(2) remaining_step[OF m(2)] by (simp add: m(1))
      then have "P (Suc a) (snd (snd (attempt_body c p init args M a le)))"
        by (rule Suc.hyps(1))
      with True Continue show ?thesis by (rule cont)
    qed
  qed
qed

lemma no_post_loop:
  "less_number (Num (real a)) M \<Longrightarrow>
   PostLoopThrow \<notin> set (fst (attempt_loop c p init args M a le))"
proof (induction a le rule: attempt_loop_induct[where M = M and c = c and p = p
        and init = init and args = args])
  case (1 a le)
  then show ?case by simp
next
  case (2 a le r)
  then show ?case by (simp add: loop_Return attempt_body_trace backoff_def)
next
  case (3 a le e)
  then show ?case by (simp add: loop_Throw attempt_body_trace backoff_def)
next
  case (4 a le)
  from 4(2) have "less_number (Num (real (Suc a))) M" by (rule Continue_next)
  with 4 show ?case by (simp add: loop_Continue attempt_body_trace backoff_def)
qed

lemma timers_append:
  "timers (xs @ ys) armed = (case timers xs armed of None \<Rightarrow> None | Some ar \<Rightarrow> timers ys ar)"
  by (induction xs armed rule: timers.induct) auto

lemma timers_attempt_body: "timers (fst (attempt_body c p init args M a le)) [] = Some []"
  by (simp add: attempt_body_trace backoff_def)

lemma timers_loop: "timers (fst (attempt_loop c p init args M a le)) [] = Some []"
proof (induction a le rule: attempt_loop_induct[where M = M and c = c and p = p
        and init = init and args = args])
  case (1 a le)
  then show ?case by (simp add: loop_exit)
next
  case (2 a le r)
  then show ?case by (simp add: loop_Return timers_attempt_body)
next
  case (3 a le e)
  then show ?case by (simp add: loop_Throw timers_attempt_body)
next
  case (4 a le)
  then show ?case by (simp add: loop_Continue timers_append timers_attempt_body)
qed

lemma attempts_attempt_body: "attempts (fst (attempt_body c p init args M a le)) = 1"
  by (simp add: attempt_body_trace backoff_def attempts_def)

lemma counts_attempt_body:
  "armed_count (fst (attempt_body c p init args M a le)) = 1"
  "cleared_count (fst (attempt_body c p init args M a le)) = 1"
  by (simp_all add: attempt_body_trace backoff_def armed_count_def cleared_count_def)

lemma attempts_append: "attempts (xs @ ys) = attempts xs + attempts ys"
  by (simp add: attempts_def)

lemma armed_count_append: "armed_count (xs @ ys) = armed_count xs + armed_count ys"
  by (simp add: armed_count_def)

lemma cleared_count_append: "cleared_count (xs @ ys) = cleared_count xs + cleared_count ys"
  by (simp add: cleared_count_def)

lemma counts_loop:
  "armed_count (fst (attempt_loop c p init args M a le)) = attempts (fst (attempt_loop c p init args M a le))
   \<and> cleared_count (fst (attempt_loop c p init args M a le)) = attempts (fst (attempt_loop c p init args M a le))"
proof (induction a le rule: attempt_loop_induct[where M = M and c = c and p = p
        and init = init and args = args])
  case (1 a le)
  then show ?case by (simp add: loop_exit attempts_def armed_count_def cleared_count_def)
next
  case (2 a le r)
  then show ?case by (simp add: loop_Return counts_attempt_body attempts_attempt_body)
next
  case (3 a le e)
  then show ?case by (simp add: loop_Throw counts_attempt_body attempts_attempt_body)
next
  case (4 a le)
  then show ?case
    by (simp add: loop_Continue attempts_append armed_count_append cleared_count_append
        counts_attempt_body attempts_attempt_body)
qed

lemma attempts_loop_NaN: "attempts (fst (attempt_loop c p init args NaN a le)) = 0"
  by (simp add: loop_exit attempts_def)


lemma fetched_append: "fetched (xs @ ys) = fetched xs @ fetched ys"
  by (induction xs rule: fetched.induct) auto

lemma fetched_attempt_body: "fetched (fst (attempt_body c p init args M a le)) = [args]"
  by (simp add: attempt_body_trace backoff_def fetched_append)

lemma fetched_loop:
  "fetched (fst (attempt_loop c p init args M a le))
     = replicate (attempts (fst (attempt_loop c p init args M a le))) args"
proof (induction a le rule: attempt_loop_induct[where M = M and c = c and p = p
        and init = init and args = args])
  case (1 a le)
  then show ?case by (simp add: loop_exit attempts_def)
next
  case (2 a le r)
  then show ?case by (simp add: loop_Return attempts_attempt_body fetched_attempt_body)
next
  case (3 a le e)
  then show ?case by (simp add: loop_Throw attempts_attempt_body fetched_attempt_body)
next
  case (4 a le)
  then show ?case
    by (simp add: loop_Continue attempts_append attempts_attempt_body fetched_append
        fetched_attempt_body)
qed

lemma loop_no_uuid: "filter is_CallRandomUUID (fst (attempt_loop c p init args M a le)) = []"
proof (induction a le rule: attempt_loop_induct[where M = M and c = c and p = p
        and init = init and args = args])
  case (1 a le)
  then show ?case by (simp add: loop_exit)
next
  case (2 a le r)
  then show ?case by (simp add: loop_Return attempt_body_trace backoff_def)
next
  case (3 a le e)
  then show ?case by (simp add: loop_Throw attempt_body_trace backoff_def)
next
  case (4 a le)
  then show ?case by (simp add: loop_Continue attempt_body_trace backoff_def)
qed

lemma loop_starts_with_timer:
  "less_number (Num (real a)) M \<Longrightarrow> fst (attempt_loop c p init args M a le) \<noteq> []
     \<and> is_SetTimeout (hd (fst (attempt_loop c p init args M a le)))"
  by (cases "fst (snd (attempt_body c p init args M a le))")
     (simp_all add: loop_Return loop_Continue loop_Throw attempt_body_trace)

lemma loop_sleeps:
  "Sleep k d \<in> set (fst (attempt_loop c p init args M a le)) \<Longrightarrow>
   d = backoff_delay (Math_random p k) k"
proof (induction a le rule: attempt_loop_induct[where M = M and c = c and p = p
        and init = init and args = args])
  case (1 a le)
  then show ?case by (simp add: loop_exit)
next
  case (2 a le r)
  then show ?case by (auto simp: loop_Return attempt_body_trace backoff_def split: if_splits)
next
  case (3 a le e)
  then show ?case by (auto simp: loop_Throw attempt_body_trace backoff_def split: if_splits)
next
  case (4 a le)
  then show ?case by (auto simp: loop_Continue attempt_body_trace backoff_def split: if_splits)
qed

section \<open>What one attempt does with an outcome\<close>




lemma body_status_error:
  "fetch p a args = Resolved r \<Longrightarrow> \<not> shouldRetry c (status r) a M \<Longrightarrow>
   parseResponse r = Inr d \<Longrightarrow> \<not> ok r \<Longrightarrow>
   snd (attempt_body c p init args M a le) =
     (if status r = 408 \<and> less_number (Num (real a)) (minus_number M (Num 1)) then Continue
      else Throw (status_error r d),
      Some (status_error r d))"
  by (auto simp: attempt_body_def try_block_def catch_block_def status_error_def
      shouldRetryError_def new_HTTPError_def isNetworkError_def)



section \<open>Header lists\<close>

lemma filter_set_first_same:
  "n \<in> set (map fst hs) \<Longrightarrow> filter (\<lambda>kv. fst kv = n) (set_first n v hs) = [(n, v)]"
proof (induction hs)
  case Nil
  then show ?case by simp
next
  case (Cons kv hs)
  show ?case
  proof (cases "fst kv = n")
    case True
    have "filter (\<lambda>kv. fst kv = n) (filter (\<lambda>kv'. fst kv' \<noteq> n) hs) = []"
      by (induction hs) auto
    with True show ?thesis by simp
  next
    case False
    with Cons show ?thesis by auto
  qed
qed

lemma filter_set_first_other:
  "k \<noteq> n \<Longrightarrow> filter (\<lambda>kv. fst kv = k) (set_first n v hs) = filter (\<lambda>kv. fst kv = k) hs"
proof (induction hs)
  case Nil
  then show ?case by simp
next
  case (Cons kv hs)
  have "filter (\<lambda>kv. fst kv = k) (filter (\<lambda>kv'. fst kv' \<noteq> n) hs) = filter (\<lambda>kv. fst kv = k) hs"
    using Cons.prems by (induction hs) auto
  with Cons show ?case by auto
qed

lemma Headers_set_Inr:
  "Headers_set hs n v = Inr hs' \<Longrightarrow>
   hs' = (if Headers_has hs n then set_first (lowercase n) (normalize_value v) hs
          else hs @ [(lowercase n, normalize_value v)])"
  by (simp add: Headers_set_def Let_def split: if_splits)

lemma Headers_get_set_same:
  assumes "Headers_set hs n v = Inr hs'"
  shows "Headers_get hs' n = Some (normalize_value v)"
proof (cases "Headers_has hs n")
  case True
  with Headers_set_Inr[OF assms] show ?thesis
    by (simp add: Headers_get_def Headers_has_def filter_set_first_same)
next
  case False
  then have "filter (\<lambda>kv. fst kv = lowercase n) hs = []"
    by (force simp: Headers_has_def filter_empty_conv)
  with False Headers_set_Inr[OF assms] show ?thesis
    by (simp add: Headers_get_def)
qed

lemma Headers_get_set_other:
  "Headers_set hs n v = Inr hs' \<Longrightarrow> lowercase k \<noteq> lowercase n \<Longrightarrow>
   Headers_get hs' k = Headers_get hs k"
  by (drule Headers_set_Inr) (simp add: Headers_get_def filter_set_first_other)

lemma lowercase_names:
  "lowercase ''x-request-id'' = ''x-request-id''"
  "lowercase ''Authorization'' = ''authorization''"
  "lowercase ''Content-Type'' = ''content-type''"
  by code_simp+

lemma Headers_has_iff_get: "Headers_has hs n = (Headers_get hs n \<noteq> None)"
proof -
  have "(filter (\<lambda>kv. fst kv = lowercase n) hs = []) = (lowercase n \<notin> set (map fst hs))"
    by (force simp: filter_empty_conv)
  then show ?thesis
    by (cases "filter (\<lambda>kv. fst kv = lowercase n) hs") (simp_all add: Headers_has_def Headers_get_def)
qed

text \<open>\<^verbatim>\<open>buildHeaders\<close>, step by step, when it does not throw.\<close>

lemma buildHeaders_Inr:
  assumes "snd (snd (buildHeaders h c p init)) = Inr hs"
  obtains hs0 hs1 hs2 where
    "Headers_new (spread (read_record h (defaultHeaders c))
        (case init_headers init of None \<Rightarrow> [] | Some x \<Rightarrow> x)) = Inr hs0"
    "(if \<not> Headers_has hs0 ''x-request-id''
      then Headers_set hs0 ''x-request-id'' (randomUUID p) else Inr hs0) = Inr hs1"
    "(if truthy (init_authToken init)
      then Headers_set hs1 ''Authorization'' (''Bearer '' @ the (init_authToken init))
      else Inr hs1) = Inr hs2"
    "(if init_json init \<noteq> None \<and> \<not> Headers_has hs2 ''Content-Type''
      then Headers_set hs2 ''Content-Type'' ''application/json'' else Inr hs2) = Inr hs"
    "fst (snd (buildHeaders h c p init)) =
       (if \<not> Headers_has hs0 ''x-request-id'' then [CallRandomUUID (randomUUID p)] else [])"
  using assms
  by (auto simp: buildHeaders_def Let_def alloc_def read_record_def
      split: prod.splits sum.splits if_splits)

lemma buildHeaders_events:
  "fst (snd (buildHeaders h c p init)) = [] \<or>
   fst (snd (buildHeaders h c p init)) = [CallRandomUUID (randomUUID p)]"
  by (auto simp: buildHeaders_def Let_def alloc_def split: prod.splits sum.splits)

lemma buildHeaders_heap:
  "fst (buildHeaders h c p init) =
     h @ [ORecord (spread (read_record h (defaultHeaders c))
                     (case init_headers init of None \<Rightarrow> [] | Some hs \<Rightarrow> hs))]"
  by (auto simp: buildHeaders_def Let_def alloc_def split: prod.splits sum.splits)

lemma buildHeaders_request_id:
  assumes "snd (snd (buildHeaders h c p init)) = Inr hs"
  shows "if supplied_request_id h c init
         then fst (snd (buildHeaders h c p init)) = []
         else fst (snd (buildHeaders h c p init)) = [CallRandomUUID (randomUUID p)]
              \<and> Headers_get hs ''x-request-id'' = Some (normalize_value (randomUUID p))"
proof -
  from assms obtain hs0 hs1 hs2 where
    0: "Headers_new (spread (read_record h (defaultHeaders c))
        (case init_headers init of None \<Rightarrow> [] | Some x \<Rightarrow> x)) = Inr hs0"
    and 1: "(if \<not> Headers_has hs0 ''x-request-id''
      then Headers_set hs0 ''x-request-id'' (randomUUID p) else Inr hs0) = Inr hs1"
    and 2: "(if truthy (init_authToken init)
      then Headers_set hs1 ''Authorization'' (''Bearer '' @ the (init_authToken init))
      else Inr hs1) = Inr hs2"
    and 3: "(if init_json init \<noteq> None \<and> \<not> Headers_has hs2 ''Content-Type''
      then Headers_set hs2 ''Content-Type'' ''application/json'' else Inr hs2) = Inr hs"
    and ev: "fst (snd (buildHeaders h c p init)) =
       (if \<not> Headers_has hs0 ''x-request-id'' then [CallRandomUUID (randomUUID p)] else [])"
    by (rule buildHeaders_Inr)
  have sup: "supplied_request_id h c init = Headers_has hs0 ''x-request-id''"
    by (simp add: supplied_request_id_def 0)
  show ?thesis
  proof (cases "Headers_has hs0 ''x-request-id''")
    case True
    with sup ev show ?thesis by simp
  next
    case False
    with 1 have s1: "Headers_set hs0 ''x-request-id'' (randomUUID p) = Inr hs1" by simp
    have g1: "Headers_get hs1 ''x-request-id'' = Some (normalize_value (randomUUID p))"
      by (rule Headers_get_set_same[OF s1])
    have g2: "Headers_get hs2 ''x-request-id'' = Headers_get hs1 ''x-request-id''"
      using 2 by (auto simp: Headers_get_set_other lowercase_names split: if_splits)
    have g3: "Headers_get hs ''x-request-id'' = Headers_get hs2 ''x-request-id''"
      using 3 by (auto simp: Headers_get_set_other lowercase_names split: if_splits)
    from False sup ev g1 g2 g3 show ?thesis by simp
  qed
qed

lemma buildHeaders_authorization:
  assumes "snd (snd (buildHeaders h c p init)) = Inr hs"
      and "truthy (init_authToken init)"
  shows "Headers_get hs ''Authorization''
           = Some (normalize_value (''Bearer '' @ the (init_authToken init)))"
proof -
  from assms(1) obtain hs0 hs1 hs2 where
    2: "(if truthy (init_authToken init)
      then Headers_set hs1 ''Authorization'' (''Bearer '' @ the (init_authToken init))
      else Inr hs1) = Inr hs2"
    and 3: "(if init_json init \<noteq> None \<and> \<not> Headers_has hs2 ''Content-Type''
      then Headers_set hs2 ''Content-Type'' ''application/json'' else Inr hs2) = Inr hs"
    by (rule buildHeaders_Inr)
  from 2 assms(2)
  have "Headers_set hs1 ''Authorization'' (''Bearer '' @ the (init_authToken init)) = Inr hs2"
    by simp
  then have g2: "Headers_get hs2 ''Authorization''
                   = Some (normalize_value (''Bearer '' @ the (init_authToken init)))"
    by (rule Headers_get_set_same)
  have "Headers_get hs ''Authorization'' = Headers_get hs2 ''Authorization''"
    using 3 by (auto simp: Headers_get_set_other lowercase_names split: if_splits)
  with g2 show ?thesis by simp
qed

lemma normalize_value_id:
  assumes "v \<noteq> []" and "\<not> http_whitespace (hd v)" and "\<not> http_whitespace (last v)"
  shows "normalize_value v = v"
proof -
  from assms(1) obtain x xs where v: "v = x # xs" by (cases v) auto
  with assms(2) have 1: "dropWhile http_whitespace v = v" by simp
  from assms(1) obtain ys y where r: "v = ys @ [y]" by (cases v rule: rev_cases) auto
  with assms(3) have 2: "dropWhile http_whitespace (rev v) = rev v" by simp
  show ?thesis unfolding normalize_value_def 1 2 by simp
qed

lemma normalize_bearer:
  assumes "token \<noteq> []" and "\<not> http_whitespace (last token)"
  shows "normalize_value (''Bearer '' @ token) = ''Bearer '' @ token"
proof (rule normalize_value_id)
  show "''Bearer '' @ token \<noteq> []" by simp
  show "\<not> http_whitespace (hd (''Bearer '' @ token))" by (simp add: http_whitespace_def)
  show "\<not> http_whitespace (last (''Bearer '' @ token))" using assms by simp
qed

lemma Headers_set_valid:
  "Headers_set hs n v = Inr hs' \<Longrightarrow> valid_header_value (normalize_value v)"
  by (simp add: Headers_set_def Let_def split: if_splits)

lemma buildHeaders_token_valid:
  assumes "snd (snd (buildHeaders h c p init)) = Inr hs"
      and "truthy (init_authToken init)"
  shows "valid_header_value (normalize_value (''Bearer '' @ the (init_authToken init)))"
proof -
  from assms(1) obtain hs1 hs2 where
    "(if truthy (init_authToken init)
      then Headers_set hs1 ''Authorization'' (''Bearer '' @ the (init_authToken init))
      else Inr hs1) = Inr hs2"
    by (rule buildHeaders_Inr)
  with assms(2) show ?thesis by (simp add: Headers_set_valid)
qed

section \<open>Whole requests\<close>

lemma maxAttempts_Num:
  "retries c = Num r \<Longrightarrow> Math_max (Num 1) (plus_number (retries c) (Num 1)) = Num (max 1 (r + 1))"
  by simp

lemma maxAttempts_NaN:
  "retries c = NaN \<Longrightarrow> Math_max (Num 1) (plus_number (retries c) (Num 1)) = NaN"
  by simp

lemma call_args_Inr:
  assumes "call_args h c p method path init = Inr cargs"
  obtains url hdrs where
    "buildUrl c p path (init_query init) = Inr url"
    "snd (snd (buildHeaders h c p init)) = Inr hdrs"
    "cargs = \<lparr> fa_url = url, fa_method = method, fa_headers = hdrs,
               fa_body = map_option (JSON_stringify p) (init_json init),
               fa_cache = init_cache init \<rparr>"
  using assms by (auto simp: call_args_def split: sum.splits)

lemma request_Inr:
  assumes "call_args h c p method path init = Inr cargs"
  shows "request h c p method path init =
     \<lparr> res_heap = fst (buildHeaders h c p init),
       res_trace = fst (snd (buildHeaders h c p init))
          @ fst (attempt_loop c p init cargs
                   (Math_max (Num 1) (plus_number (retries c) (Num 1))) 0 None),
       res_outcome =
          snd (attempt_loop c p init cargs
                 (Math_max (Num 1) (plus_number (retries c) (Num 1))) 0 None) \<rparr>"
proof -
  from assms obtain url hdrs where
    u: "buildUrl c p path (init_query init) = Inr url"
    and hd: "snd (snd (buildHeaders h c p init)) = Inr hdrs"
    and ca: "cargs = \<lparr> fa_url = url, fa_method = method, fa_headers = hdrs,
               fa_body = map_option (JSON_stringify p) (init_json init),
               fa_cache = init_cache init \<rparr>"
    by (rule call_args_Inr)
  obtain h1 evs where b: "buildHeaders h c p init = (h1, evs, Inr hdrs)"
    using hd by (cases "buildHeaders h c p init") auto
  show ?thesis
    by (simp add: request_def u b ca Let_def split: prod.splits)
qed

lemma request_Inl:
  assumes "call_args h c p method path init = Inl e"
  shows "res_outcome (request h c p method path init) = Inl e"
    and "res_trace (request h c p method path init) = []
         \<or> res_trace (request h c p method path init) = fst (snd (buildHeaders h c p init))"
    and "res_heap (request h c p method path init) = h
         \<or> res_heap (request h c p method path init) = fst (buildHeaders h c p init)"
  using assms
  by (auto simp: request_def call_args_def split: sum.splits prod.splits)

lemma attempts_buildHeaders: "attempts (fst (snd (buildHeaders h c p init))) = 0"
  using buildHeaders_events[of h c p init] by (auto simp: attempts_def)

lemma attempts_request_Inr:
  "call_args h c p method path init = Inr cargs \<Longrightarrow>
   attempts (res_trace (request h c p method path init)) =
     attempts (fst (attempt_loop c p init cargs
                      (Math_max (Num 1) (plus_number (retries c) (Num 1))) 0 None))"
  by (simp add: request_Inr attempts_append attempts_buildHeaders)


section \<open>The backoff delay\<close>

lemma backoff_delay_range:
  assumes "0 \<le> u" and "u < 1"
  shows "0 \<le> backoff_delay u a \<and> backoff_delay u a \<le> min 4000 (300 * 2 ^ a)"
proof -
  define M :: int where "M = min 4000 (300 * 2 ^ a)"
  have M0: "0 \<le> M" by (simp add: M_def)
  have d: "backoff_delay u a = \<lfloor>u * real_of_int (M + 1)\<rfloor>"
    by (simp add: backoff_delay_def M_def Let_def)
  have "0 \<le> u * real_of_int (M + 1)" using assms(1) M0 by simp
  then have lo: "0 \<le> \<lfloor>u * real_of_int (M + 1)\<rfloor>" by simp
  have "u * real_of_int (M + 1) < 1 * real_of_int (M + 1)"
    using assms(2) M0 by (intro mult_strict_right_mono) simp_all
  then have "u * real_of_int (M + 1) < real_of_int (M + 1)" by simp
  then have "\<lfloor>u * real_of_int (M + 1)\<rfloor> < M + 1" by (rule floor_less_iff[THEN iffD2])
  with lo show ?thesis unfolding d M_def by simp
qed

section \<open>The store\<close>

lemma read_record_heap_write:
  "q \<noteq> a \<Longrightarrow> read_record (heap_write h q x) a = read_record h a"
  by (simp add: read_record_def heap_write_def)

lemma read_array_snoc_record: "read_array (h @ [ORecord kvs]) q = read_array h q"
  by (simp add: read_array_def nth_append)

lemma read_array_alloc: "read_array (h @ [OArray xs]) (length h) = xs"
  by (simp add: read_array_def)

lemma read_array_alloc2: "read_array (h @ [x, OArray xs]) (Suc (length h)) = xs"
  by (simp add: read_array_def nth_append)

lemma read_record_alloc: "read_record (h @ [ORecord kvs]) (length h) = kvs"
  by (simp add: read_record_def)

lemma buildHeaders_frame:
  assumes "read_record h2 (defaultHeaders c) = read_record h1 (defaultHeaders c)"
  shows "snd (buildHeaders h2 c p init) = snd (buildHeaders h1 c p init)"
  unfolding buildHeaders_def alloc_def Let_def assms
  by (simp add: read_record_alloc split: sum.splits prod.splits)

lemma request_frame:
  assumes "read_record h2 (defaultHeaders c) = read_record h1 (defaultHeaders c)"
  shows "res_trace (request h2 c p method path init) = res_trace (request h1 c p method path init)
     \<and> res_outcome (request h2 c p method path init) = res_outcome (request h1 c p method path init)"
proof -
  obtain g1 evs1 r1 where b1: "buildHeaders h1 c p init = (g1, evs1, r1)"
    by (cases "buildHeaders h1 c p init") auto
  obtain g2 evs2 r2 where b2: "buildHeaders h2 c p init = (g2, evs2, r2)"
    by (cases "buildHeaders h2 c p init") auto
  from buildHeaders_frame[OF assms, of p init] b1 b2 have "evs2 = evs1" "r2 = r1" by simp_all
  then show ?thesis
    by (simp add: request_def b1 b2 Let_def split: sum.splits prod.splits)
qed

lemma request_heap_extends: "take (length h) (res_heap (request h c p method path init)) = h"
proof (cases "call_args h c p method path init")
  case (Inl e)
  from request_Inl(3)[OF this] show ?thesis by (auto simp: buildHeaders_heap)
next
  case (Inr cargs)
  then show ?thesis by (simp add: request_Inr buildHeaders_heap)
qed

lemma constructor_fields:
  assumes "constructor h opts = (h1, c)"
  shows "baseUrl c = strip_trailing_slashes (opt_baseUrl opts)"
    and "retries c = (case opt_retries opts of None \<Rightarrow> Num 2 | Some r \<Rightarrow> r)"
    and "defaultTimeoutMs c = (case opt_defaultTimeoutMs opts of None \<Rightarrow> Num 5000 | Some t \<Rightarrow> t)"
    and "retryStatuses c = new_Set (case opt_retryStatuses opts of
                                      None \<Rightarrow> [408, 429, 502, 503, 504]
                                    | Some q \<Rightarrow> read_array h q)"
    and "defaultHeaders c = (case opt_defaultHeaders opts of None \<Rightarrow> length h | Some a \<Rightarrow> a)"
  using assms
  by (auto simp: constructor_def Let_def alloc_def read_array_snoc_record read_array_alloc
      read_array_alloc2 split: prod.splits option.splits)

section \<open>URL construction\<close>

lemma strip_trailing_slashes_decomp:
  "\<exists>k. s = strip_trailing_slashes s @ replicate k (CHR ''/'')"
proof -
  define t where "t = takeWhile (\<lambda>c. c = CHR ''/'') (rev s)"
  define d where "d = dropWhile (\<lambda>c. c = CHR ''/'') (rev s)"
  have "rev s = t @ d" by (simp add: t_def d_def)
  then have "rev (rev s) = rev (t @ d)" by (rule arg_cong)
  then have s: "s = rev d @ rev t" by simp
  have "t = replicate (length t) (CHR ''/'')"
    unfolding t_def by (rule replicate_length_same[symmetric]) (auto dest: set_takeWhileD)
  then have r: "rev t = replicate (length t) (CHR ''/'')" by (metis rev_replicate)
  have "s = rev d @ replicate (length t) (CHR ''/'')" using s unfolding r .
  then have "s = strip_trailing_slashes s @ replicate (length t) (CHR ''/'')"
    by (simp only: strip_trailing_slashes_def d_def)
  then show ?thesis ..
qed

lemma strip_trailing_slashes_last:
  "strip_trailing_slashes s \<noteq> b @ ''/''"
proof
  assume a: "strip_trailing_slashes s = b @ ''/''"
  let ?d = "dropWhile (\<lambda>c. c = CHR ''/'') (rev s)"
  from a have "?d = CHR ''/'' # rev b"
    by (simp add: strip_trailing_slashes_def rev_swap)
  then have "?d \<noteq> []" "hd ?d = CHR ''/''" by simp_all
  then show False using hd_dropWhile[of "\<lambda>c. c = CHR ''/''" "rev s"] by simp
qed

lemma constructor_baseUrl:
  "baseUrl (snd (constructor h opts)) = strip_trailing_slashes (opt_baseUrl opts)"
  by (simp add: constructor_def Let_def split: prod.splits option.splits)

lemma fold_query:
  "fold (\<lambda>(key, v) params. if v \<noteq> QUndefined then USP_append params key (String_of p v) else params) q acc
     = acc @ defined_query_pairs p q"
  by (induction q arbitrary: acc) (auto simp: defined_query_pairs_def USP_append_def)

lemma form_char_hex_digit: "d < 16 \<Longrightarrow> form_char (hex_digit d)"
proof -
  assume "d < 16"
  then have "hex_digit d \<in> set ''0123456789ABCDEF''"
    unfolding hex_digit_def by (intro nth_mem) simp
  then show ?thesis by (auto simp: form_char_def)
qed

lemma form_char_percent_byte: "b < 256 \<Longrightarrow> list_all form_char (percent_byte b)"
proof -
  assume "b < 256"
  then have "b div 16 < 16" "b mod 16 < 16" by simp_all
  then show ?thesis
    by (simp add: percent_byte_def form_char_hex_digit) (simp add: form_char_def)
qed

lemma utf8_bytes: "list_all (\<lambda>b. b < 256) (utf8 c)"
proof -
  have "(of_char c :: nat) < 4 * 64" by (simp add: nat_of_char_less_256)
  then have "(of_char c :: nat) div 64 < 4" by (rule less_mult_imp_div_less)
  moreover have "(of_char c :: nat) mod 64 < 64" by simp
  ultimately have "192 + (of_char c :: nat) div 64 < 256" "128 + (of_char c :: nat) mod 64 < 256"
    by linarith+
  moreover have "(of_char c :: nat) < 256" by (rule nat_of_char_less_256)
  ultimately show ?thesis unfolding utf8_def Let_def by (simp del: nat_of_char_less_256)
qed

lemma form_char_percent_encode: "list_all form_char (percent_encode c)"
proof -
  have "list_all (\<lambda>b. b < 256) bs \<Longrightarrow> list_all form_char (concat (map percent_byte bs))" for bs
    by (induction bs) (simp_all add: form_char_percent_byte)
  from this[OF utf8_bytes] show ?thesis by (simp add: percent_encode_def)
qed

lemma form_char_urlencode_char: "list_all form_char (urlencode_char c)"
  using form_char_percent_encode[of c]
  by (auto simp: urlencode_char_def Let_def form_char_def)

lemma form_char_urlencode: "list_all form_char (urlencode s)"
  using form_char_urlencode_char by (induction s) (auto simp: urlencode_def)

lemma form_char_join:
  "list_all (list_all form_char) xs \<Longrightarrow> list_all form_char (join ''&'' xs)"
  by (induction "''&''" xs rule: join.induct) (auto simp: form_char_def)

lemma form_char_USP_toString: "list_all form_char (USP_toString ps)"
proof -
  have "list_all (list_all form_char) (map (\<lambda>(k, v). urlencode k @ ''='' @ urlencode v) ps)"
    using form_char_urlencode by (induction ps) (auto simp: form_char_def)
  then show ?thesis unfolding USP_toString_def by (rule form_char_join)
qed

lemma USP_toString_Nil: "USP_toString [] = []"
  by (simp add: USP_toString_def)

lemma USP_toString_nonempty: "ps \<noteq> [] \<Longrightarrow> USP_toString ps \<noteq> []"
proof (cases ps)
  case Nil
  then show "ps \<noteq> [] \<Longrightarrow> ?thesis" by simp
next
  case (Cons kv rest)
  obtain k v where kv: "kv = (k, v)" by (cases kv)
  show ?thesis using Cons kv by (cases rest) (simp_all add: USP_toString_def)
qed

lemma form_char_untouched:
  assumes "form_char c"
  shows "\<not> in_query_set special c" and "c \<noteq> CHR ''?''"
    and "(of_char c :: nat) \<noteq> 9 \<and> (of_char c :: nat) \<noteq> 10 \<and> (of_char c :: nat) \<noteq> 13"
  using assms by (auto simp: form_char_def in_query_set_def Let_def)

lemma URL_set_search_form:
  assumes "s \<noteq> []" and "list_all form_char s"
  shows "URL_set_search u s = u\<lparr>url_query := Some s\<rparr>"
proof -
  from assms obtain c cs where s: "s = c # cs" by (cases s) auto
  with assms(2) have "c \<noteq> CHR ''?''" using form_char_untouched(2)[of c] by simp
  then have h: "(if hd s = CHR ''?'' then tl s else s) = s" by (simp add: s)
  have f: "filter (\<lambda>c. (of_char c :: nat) \<noteq> 9 \<and> (of_char c :: nat) \<noteq> 10
                         \<and> (of_char c :: nat) \<noteq> 13) s = s"
    using assms(2) form_char_untouched(3) by (induction s) auto
  have m: "concat (map (\<lambda>c. if in_query_set (url_special u) c then percent_encode c else [c]) s) = s"
    using assms(2) form_char_untouched(1) by (induction s) auto
  show ?thesis
    unfolding URL_set_search_def Let_def h f m using assms(1) by simp
qed

section \<open>The claims\<close>

text \<open>
  C1, as stated, fails: the \<^verbatim>\<open>HTTPError\<close> is thrown inside the \<^verbatim>\<open>try\<close> block, so the
  \<^verbatim>\<open>catch\<close> block sees it, and \<^verbatim>\<open>shouldRetryError\<close> retries an error whose
  \<^verbatim>\<open>status\<close> is 408 while attempts remain. With \<^verbatim>\<open>retryStatuses = [503]\<close> and one
  retry, a 408 response to the first exchange raises the error, the call goes on to a
  second attempt, and the caller gets the 200 response of that attempt.
\<close>

theorem status_error_retried_counterexample:
  "\<not> ok (example_response 408 ''slow'')
   \<and> \<not> shouldRetry (custom_client [503] 1) 408 0 (Num 2)
   \<and> call_args (custom_heap [503] 1) (custom_client [503] 1)
        (scripted_platform (\<lambda>n. if n = 0 then Resolved (example_response 408 ''slow'')
                                  else Resolved (example_response 200 ''fine'')))
        GET ''/a'' example_init = Inr example_args
   \<and> snd (try_block (custom_client [503] 1)
        (scripted_platform (\<lambda>n. if n = 0 then Resolved (example_response 408 ''slow'')
                                  else Resolved (example_response 200 ''fine'')))
        example_args (Num 2) 0)
       = Throw (status_error (example_response 408 ''slow'') (TextData ''slow''))
   \<and> attempts (res_trace (request (custom_heap [503] 1) (custom_client [503] 1)
        (scripted_platform (\<lambda>n. if n = 0 then Resolved (example_response 408 ''slow'')
                                  else Resolved (example_response 200 ''fine'')))
        GET ''/a'' example_init)) = 2
   \<and> res_outcome (request (custom_heap [503] 1) (custom_client [503] 1)
        (scripted_platform (\<lambda>n. if n = 0 then Resolved (example_response 408 ''slow'')
                                  else Resolved (example_response 200 ''fine'')))
        GET ''/a'' example_init)
       = Inr \<lparr> resp_data = TextData ''fine'', resp_status = 200,
               resp_headers = [(''content-type'', ''text/plain'')] \<rparr>"
  by code_simp

text \<open>
  C1, amended. When an exchange completes with a status that is not retried by
  \<^verbatim>\<open>shouldRetry\<close> and is not ok, and the body parses, the \<^verbatim>\<open>try\<close> block throws the
  \<^verbatim>\<open>HTTPError\<close> of that status. Unless the status is 408 and attempts remain, the
  error is terminal: the loop ends with this attempt (timer armed, one exchange, timer
  cleared) and the caller gets the error unchanged.
\<close>

theorem status_error_terminal_unless_408:
  assumes "real a < m"
      and "fetch p a args = Resolved r"
      and "\<not> shouldRetry c (status r) a (Num m)"
      and "parseResponse r = Inr d"
      and "\<not> ok r"
      and "status r \<noteq> 408 \<or> \<not> real a < m - 1"
  shows "try_block c p args (Num m) a = ([CallFetch a args], Throw (status_error r d))
     \<and> attempt_loop c p init args (Num m) a le =
          ([SetTimeout a (case init_timeoutMs init of None \<Rightarrow> defaultTimeoutMs c | Some t \<Rightarrow> t),
            CallFetch a args, ClearTimeout a],
           Inl (status_error r d))"
proof -
  have t: "try_block c p args (Num m) a = ([CallFetch a args], Throw (status_error r d))"
    using assms by (simp add: try_block_def status_error_def)
  have b: "snd (attempt_body c p init args (Num m) a le) =
     (if status r = 408 \<and> less_number (Num (real a)) (minus_number (Num m) (Num 1)) then Continue
      else Throw (status_error r d),
      Some (status_error r d))"
    by (rule body_status_error[OF assms(2-5)])
  with assms(6)
  have T: "fst (snd (attempt_body c p init args (Num m) a le)) = Throw (status_error r d)"
    by auto
  have lt: "less_number (Num (real a)) (Num m)" using assms(1) by simp
  have "attempt_loop c p init args (Num m) a le =
          ([SetTimeout a (case init_timeoutMs init of None \<Rightarrow> defaultTimeoutMs c | Some t \<Rightarrow> t),
            CallFetch a args, ClearTimeout a],
           Inl (status_error r d))"
    by (simp add: loop_Throw[OF lt T] attempt_body_trace T)
  with t show ?thesis by simp
qed

theorem status_error_terminal_unless_408_witness:
  "real 0 < 3
   \<and> fetch (scripted_platform (\<lambda>n. Resolved (example_response 500 ''boom''))) 0 example_args
       = Resolved (example_response 500 ''boom'')
   \<and> \<not> shouldRetry example_client (status (example_response 500 ''boom'')) 0 (Num 3)
   \<and> parseResponse (example_response 500 ''boom'') = Inr (TextData ''boom'')
   \<and> \<not> ok (example_response 500 ''boom'')
   \<and> status (example_response 500 ''boom'') \<noteq> 408
   \<and> attempt_loop example_client (scripted_platform (\<lambda>n. Resolved (example_response 500 ''boom'')))
        example_init example_args (Num 3) 0 None
       = ([SetTimeout 0 (Num 5000), CallFetch 0 example_args, ClearTimeout 0],
          Inl (status_error (example_response 500 ''boom'') (TextData ''boom'')))"
proof -
  let ?p = "scripted_platform (\<lambda>n. Resolved (example_response 500 ''boom''))"
  have 1: "real 0 < 3" by simp
  have 2: "fetch ?p 0 example_args = Resolved (example_response 500 ''boom'')"
    by (simp add: scripted_platform_def)
  have 3: "\<not> shouldRetry example_client (status (example_response 500 ''boom'')) 0 (Num 3)"
    by code_simp
  have 4: "parseResponse (example_response 500 ''boom'') = Inr (TextData ''boom'')"
    by code_simp
  have 5: "\<not> ok (example_response 500 ''boom'')" by code_simp
  have 6: "status (example_response 500 ''boom'') \<noteq> 408 \<or> \<not> real 0 < 3 - 1"
    by (simp add: example_response_def)
  have 7: "(case init_timeoutMs example_init of None \<Rightarrow> defaultTimeoutMs example_client | Some t \<Rightarrow> t)
             = Num 5000"
    by code_simp
  from status_error_terminal_unless_408[OF 1 2 3 4 5 6, of example_init None] 7
  have "attempt_loop example_client ?p example_init example_args (Num 3) 0 None
       = ([SetTimeout 0 (Num 5000), CallFetch 0 example_args, ClearTimeout 0],
          Inl (status_error (example_response 500 ''boom'') (TextData ''boom'')))"
    by simp
  with 1 2 3 4 5 show ?thesis by (simp add: example_response_def)
qed

text \<open>
  C2, as stated, fails: the constructor keeps the reference to the caller's
  \<^verbatim>\<open>defaultHeaders\<close> object (\<^verbatim>\<open>this.defaultHeaders = defaultHeaders\<close>), it does not copy
  it. After the caller overwrites a header in its own object, the client's requests
  are built from the new value.
\<close>

theorem shared_default_headers_counterexample:
  "constructor shared_heap shared_options = (shared_heap, shared_client)
   \<and> opt_defaultHeaders shared_options = Some (defaultHeaders shared_client)
   \<and> snd (snd (buildHeaders shared_heap shared_client
          (scripted_platform (\<lambda>n. Rejected AbortError)) example_init))
       = Inr [(''x-api-key'', ''old''),
              (''x-request-id'', ''123e4567-e89b-42d3-a456-426614174000'')]
   \<and> snd (snd (buildHeaders
          (heap_write shared_heap 0 (ORecord [(''x-api-key'', ''new'')])) shared_client
          (scripted_platform (\<lambda>n. Rejected AbortError)) example_init))
       = Inr [(''x-api-key'', ''new''),
              (''x-request-id'', ''123e4567-e89b-42d3-a456-426614174000'')]"
  by code_simp

text \<open>
  C2, amended. The constructor strips the trailing slashes of \<^verbatim>\<open>baseUrl\<close>, stores the
  numeric policies by value and copies the retry statuses, as they are at
  construction time, into a set of its own; the default headers are held by reference
  to the caller's object. A request changes no object that exists when it starts, and
  its trace and outcome depend on the store only through the default-header object: a
  later write to any other object, the caller's array of retry statuses included,
  changes nothing of what the client does.
\<close>

theorem engine_fixed_except_default_headers:
  assumes "constructor h opts = (h1, c)"
      and "q \<noteq> defaultHeaders c"
  shows "baseUrl c = strip_trailing_slashes (opt_baseUrl opts)
     \<and> retries c = (case opt_retries opts of None \<Rightarrow> Num 2 | Some r \<Rightarrow> r)
     \<and> defaultTimeoutMs c = (case opt_defaultTimeoutMs opts of None \<Rightarrow> Num 5000 | Some t \<Rightarrow> t)
     \<and> retryStatuses c = new_Set (case opt_retryStatuses opts of
                                    None \<Rightarrow> [408, 429, 502, 503, 504]
                                  | Some a \<Rightarrow> read_array h a)
     \<and> defaultHeaders c = (case opt_defaultHeaders opts of None \<Rightarrow> length h | Some a \<Rightarrow> a)
     \<and> take (length h2) (res_heap (request h2 c p method path init)) = h2
     \<and> res_trace (request (heap_write h2 q x) c p method path init)
          = res_trace (request h2 c p method path init)
     \<and> res_outcome (request (heap_write h2 q x) c p method path init)
          = res_outcome (request h2 c p method path init)"
proof -
  have "read_record (heap_write h2 q x) (defaultHeaders c) = read_record h2 (defaultHeaders c)"
    using assms(2) by (rule read_record_heap_write)
  from request_frame[OF this] constructor_fields[OF assms(1)] request_heap_extends[of h2]
  show ?thesis by simp
qed

theorem engine_fixed_except_default_headers_witness:
  "constructor shared_heap shared_options = (shared_heap, shared_client)
   \<and> 1 \<noteq> defaultHeaders shared_client
   \<and> opt_retryStatuses shared_options = Some 1
   \<and> retryStatuses shared_client = [500]
   \<and> res_outcome (request (heap_write shared_heap 1 (OArray [200])) shared_client
        (scripted_platform (\<lambda>n. Resolved (example_response 500 ''boom''))) GET ''/a'' example_init)
      = res_outcome (request shared_heap shared_client
        (scripted_platform (\<lambda>n. Resolved (example_response 500 ''boom''))) GET ''/a'' example_init)
   \<and> res_trace (request (heap_write shared_heap 1 (OArray [200])) shared_client
        (scripted_platform (\<lambda>n. Resolved (example_response 500 ''boom''))) GET ''/a'' example_init)
      = res_trace (request shared_heap shared_client
        (scripted_platform (\<lambda>n. Resolved (example_response 500 ''boom''))) GET ''/a'' example_init)"
proof -
  have 1: "constructor shared_heap shared_options = (shared_heap, shared_client)" by code_simp
  have 2: "1 \<noteq> defaultHeaders shared_client" by code_simp
  have 3: "opt_retryStatuses shared_options = Some 1" by (simp add: shared_options_def)
  have 4: "read_array shared_heap 1 = [500]" by code_simp
  have 5: "new_Set [500] = [500]" by code_simp
  from engine_fixed_except_default_headers[OF 1 2, of shared_heap
      "scripted_platform (\<lambda>n. Resolved (example_response 500 ''boom''))" GET "''/a''" example_init
      "OArray [200]"] 1 2 3 4 5
  show ?thesis by simp
qed

text \<open>
  C3, as stated, fails in three ways. The token step is guarded by the truthiness of
  \<^verbatim>\<open>init.authToken\<close>, and the empty string is a token argument that is present and
  falsy: with \<^verbatim>\<open>authToken: ""\<close> and a per-call \<^verbatim>\<open>Authorization\<close> header, the final
  headers keep the per-call header and carry no bearer token. \<^verbatim>\<open>Headers.set\<close> strips
  the whitespace around a value: with the token \<^verbatim>\<open>"tok "\<close> the header is
  \<^verbatim>\<open>Bearer tok\<close>, not \<^verbatim>\<open>Bearer tok \<close>. And \<^verbatim>\<open>Headers.set\<close> refuses a value with a line
  feed inside: with the token \<^verbatim>\<open>"a\nb"\<close> header construction throws a \<^verbatim>\<open>TypeError\<close> and
  there is no final header set.
\<close>

theorem bearer_token_counterexample:
  "snd (snd (buildHeaders example_heap example_client
          (scripted_platform (\<lambda>n. Rejected AbortError))
          (example_init\<lparr> init_headers := Some [(''Authorization'', ''Basic abc'')],
                         init_authToken := Some [] \<rparr>)))
     = Inr [(''authorization'', ''Basic abc''),
            (''x-request-id'', ''123e4567-e89b-42d3-a456-426614174000'')]
   \<and> snd (snd (buildHeaders example_heap example_client
          (scripted_platform (\<lambda>n. Rejected AbortError))
          (example_init\<lparr> init_authToken := Some ''tok '' \<rparr>)))
     = Inr [(''x-request-id'', ''123e4567-e89b-42d3-a456-426614174000''),
            (''authorization'', ''Bearer tok'')]
   \<and> snd (snd (buildHeaders example_heap example_client
          (scripted_platform (\<lambda>n. Rejected AbortError))
          (example_init\<lparr> init_authToken := Some [CHR ''a'', CHR 0x0A, CHR ''b''] \<rparr>)))
     = Inl (new_TypeError ''Invalid header'')"
  by code_simp

text \<open>
  C3, amended. For every call whose bearer-token argument is a non-empty string and
  whose header construction does not throw, the final header set has
  \<^verbatim>\<open>Authorization\<close> with the value \<^verbatim>\<open>Bearer <token>\<close> as \<^verbatim>\<open>Headers.set\<close> normalises it
  (the whitespace at its end stripped), whatever the client's default headers and the
  per-call headers hold: the token step runs after both and replaces every
  \<^verbatim>\<open>Authorization\<close> entry, and the later content-type step leaves it alone. The value is
  \<^verbatim>\<open>Bearer <token>\<close> itself when the token does not end in whitespace. The value has
  no NUL, line feed or carriage return in it: a token that has one before its last
  character that is not whitespace makes header construction throw.
\<close>

theorem bearer_token_overrides:
  assumes "init_authToken init = Some token" and "token \<noteq> []"
      and "snd (snd (buildHeaders h c p init)) = Inr hs"
  shows "Headers_get hs ''Authorization'' = Some (normalize_value (''Bearer '' @ token))
     \<and> (\<not> http_whitespace (last token)
          \<longrightarrow> Headers_get hs ''Authorization'' = Some (''Bearer '' @ token))
     \<and> valid_header_value (normalize_value (''Bearer '' @ token))"
proof -
  have t: "truthy (init_authToken init)" using assms(1,2) by (simp add: truthy_def)
  have g: "Headers_get hs ''Authorization'' = Some (normalize_value (''Bearer '' @ token))"
    using buildHeaders_authorization[OF assms(3) t] assms(1) by simp
  have v: "valid_header_value (normalize_value (''Bearer '' @ token))"
    using buildHeaders_token_valid[OF assms(3) t] assms(1) by simp
  show ?thesis using g v normalize_bearer[OF assms(2)] by simp
qed

theorem bearer_token_overrides_witness:
  "init_authToken (example_init\<lparr> init_headers := Some [(''authorization'', ''Basic abc'')],
                                  init_authToken := Some ''tok'' \<rparr>) = Some ''tok''
   \<and> ''tok'' \<noteq> []
   \<and> snd (snd (buildHeaders example_heap example_client
          (scripted_platform (\<lambda>n. Rejected AbortError))
          (example_init\<lparr> init_headers := Some [(''authorization'', ''Basic abc'')],
                         init_authToken := Some ''tok'' \<rparr>)))
       = Inr [(''authorization'', ''Bearer tok''),
              (''x-request-id'', ''123e4567-e89b-42d3-a456-426614174000'')]
   \<and> \<not> http_whitespace (last ''tok'')
   \<and> Headers_get [(''authorization'', ''Bearer tok''),
                   (''x-request-id'', ''123e4567-e89b-42d3-a456-426614174000'')] ''Authorization''
       = Some ''Bearer tok''"
proof -
  let ?init = "example_init\<lparr> init_headers := Some [(''authorization'', ''Basic abc'')],
                             init_authToken := Some ''tok'' \<rparr>"
  have 1: "init_authToken ?init = Some ''tok''" by simp
  have 2: "''tok'' \<noteq> []" by simp
  have 3: "snd (snd (buildHeaders example_heap example_client
          (scripted_platform (\<lambda>n. Rejected AbortError)) ?init))
       = Inr [(''authorization'', ''Bearer tok''),
              (''x-request-id'', ''123e4567-e89b-42d3-a456-426614174000'')]"
    by code_simp
  have 4: "\<not> http_whitespace (last ''tok'')" by code_simp
  from bearer_token_overrides[OF 1 2 3] 4
  have "Headers_get [(''authorization'', ''Bearer tok''),
                   (''x-request-id'', ''123e4567-e89b-42d3-a456-426614174000'')] ''Authorization''
       = Some (''Bearer '' @ ''tok'')"
    by blast
  then have "Headers_get [(''authorization'', ''Bearer tok''),
                   (''x-request-id'', ''123e4567-e89b-42d3-a456-426614174000'')] ''Authorization''
       = Some ''Bearer tok''"
    by (simp only: append.simps)
  with 1 2 3 4 show ?thesis by blast
qed







text \<open>
  C6. Whenever \<^verbatim>\<open>Math.random()\<close> returns a number in \<open>[0, 1)\<close>, every backoff a call
  sleeps after the attempt with index \<open>a\<close> lasts \<^verbatim>\<open>floor(random * (maxDelay + 1))\<close>
  milliseconds, which lies between 0 and \<open>min 4000 (300 * 2 ^ a)\<close>, both included.
\<close>

theorem backoff_within_range:
  assumes "\<forall>n. 0 \<le> Math_random p n \<and> Math_random p n < 1"
      and "Sleep a d \<in> set (res_trace (request h c p method path init))"
  shows "d = backoff_delay (Math_random p a) a \<and> 0 \<le> d \<and> d \<le> min 4000 (300 * 2 ^ a)"
proof -
  have nb: "Sleep a d \<notin> set (fst (snd (buildHeaders h c p init)))"
    using buildHeaders_events[of h c p init] by auto
  have d: "d = backoff_delay (Math_random p a) a"
  proof (cases "call_args h c p method path init")
    case (Inl e)
    from request_Inl(2)[OF this] assms(2) nb show ?thesis by auto
  next
    case (Inr cargs)
    with assms(2) nb
    have "Sleep a d \<in> set (fst (attempt_loop c p init cargs
                              (Math_max (Num 1) (plus_number (retries c) (Num 1))) 0 None))"
      by (simp add: request_Inr)
    then show ?thesis by (rule loop_sleeps)
  qed
  have "0 \<le> Math_random p a" "Math_random p a < 1" using assms(1) by simp_all
  from backoff_delay_range[OF this, of a] d show ?thesis by simp
qed

theorem backoff_within_range_witness:
  "(\<forall>n. 0 \<le> Math_random (scripted_platform (\<lambda>n. Rejected AbortError)) n
        \<and> Math_random (scripted_platform (\<lambda>n. Rejected AbortError)) n < 1)
   \<and> Sleep 1 300 \<in> set (res_trace (request example_heap example_client
        (scripted_platform (\<lambda>n. Rejected AbortError)) GET ''/a'' example_init))
   \<and> (300::int) = backoff_delay (Math_random (scripted_platform (\<lambda>n. Rejected AbortError)) 1) 1
   \<and> (0::int) \<le> 300 \<and> (300::int) \<le> min 4000 (300 * 2 ^ 1)"
proof -
  let ?p = "scripted_platform (\<lambda>n. Rejected AbortError)"
  have 1: "\<forall>n. 0 \<le> Math_random ?p n \<and> Math_random ?p n < 1"
    by (simp add: scripted_platform_def)
  have 2: "Sleep 1 300 \<in> set (res_trace (request example_heap example_client ?p GET ''/a'' example_init))"
    by code_simp
  from backoff_within_range[OF 1 2] 1 2 show ?thesis by simp
qed

text \<open>
  C7. For every call, each attempt's timer is cleared exactly once on every way out of
  the attempt: along the trace no timer is armed twice, none is cleared that is not
  armed, and none is left armed at the end; as many timers are armed, and as many are
  cleared, as there are attempts.
\<close>

theorem timers_released_exactly_once:
  "timers (res_trace (request h c p method path init)) [] = Some []
   \<and> armed_count (res_trace (request h c p method path init))
        = attempts (res_trace (request h c p method path init))
   \<and> cleared_count (res_trace (request h c p method path init))
        = attempts (res_trace (request h c p method path init))"
proof -
  let ?B = "fst (snd (buildHeaders h c p init))"
  have b: "timers ?B [] = Some []" "armed_count ?B = 0" "cleared_count ?B = 0" "attempts ?B = 0"
    using buildHeaders_events[of h c p init]
    by (auto simp: armed_count_def cleared_count_def attempts_def)
  show ?thesis
  proof (cases "call_args h c p method path init")
    case (Inl e)
    from request_Inl(2)[OF this] b show ?thesis
      by (auto simp: attempts_def armed_count_def cleared_count_def)
  next
    case (Inr cargs)
    let ?L = "attempt_loop c p init cargs (Math_max (Num 1) (plus_number (retries c) (Num 1))) 0 None"
    have t: "res_trace (request h c p method path init) = ?B @ fst ?L"
      using Inr by (simp add: request_Inr)
    have 1: "timers (?B @ fst ?L) [] = Some []"
      by (simp add: timers_append b timers_loop)
    have 2: "armed_count (?B @ fst ?L) = attempts (?B @ fst ?L)"
      by (simp add: armed_count_append attempts_append b counts_loop)
    have 3: "cleared_count (?B @ fst ?L) = attempts (?B @ fst ?L)"
      by (simp add: cleared_count_append attempts_append b counts_loop)
    show ?thesis unfolding t using 1 2 3 by simp
  qed
qed

theorem timers_released_exactly_once_witness:
  "timers (res_trace (request example_heap example_client
      (scripted_platform (\<lambda>n. Rejected AbortError)) GET ''/a'' example_init)) [] = Some []
   \<and> armed_count (res_trace (request example_heap example_client
      (scripted_platform (\<lambda>n. Rejected AbortError)) GET ''/a'' example_init)) = 3
   \<and> cleared_count (res_trace (request example_heap example_client
      (scripted_platform (\<lambda>n. Rejected AbortError)) GET ''/a'' example_init)) = 3"
proof -
  have "attempts (res_trace (request example_heap example_client
      (scripted_platform (\<lambda>n. Rejected AbortError)) GET ''/a'' example_init)) = 3"
    by code_simp
  with timers_released_exactly_once[of example_heap example_client
      "scripted_platform (\<lambda>n. Rejected AbortError)" GET "''/a''" example_init]
  show ?thesis by simp
qed

text \<open>
  C8, as stated, fails when \<^verbatim>\<open>retries\<close> is \<^verbatim>\<open>NaN\<close>: \<^verbatim>\<open>Math.max(1, NaN + 1)\<close> is \<^verbatim>\<open>NaN\<close>,
  the loop test \<^verbatim>\<open>0 < NaN\<close> is false, no attempt is made, and the statement after the
  loop throws \<^verbatim>\<open>Request failed\<close>.
\<close>

theorem post_loop_reached_counterexample:
  "retries nan_client = NaN
   \<and> PostLoopThrow \<in> set (res_trace (request nan_heap nan_client
        (scripted_platform (\<lambda>n. Resolved (example_response 200 ''fine''))) GET ''/a'' example_init))
   \<and> attempts (res_trace (request nan_heap nan_client
        (scripted_platform (\<lambda>n. Resolved (example_response 200 ''fine''))) GET ''/a'' example_init)) = 0
   \<and> res_outcome (request nan_heap nan_client
        (scripted_platform (\<lambda>n. Resolved (example_response 200 ''fine''))) GET ''/a'' example_init)
       = Inl (new_HTTPError ''Request failed'' None None)"
  by code_simp

text \<open>
  C8, amended. When \<^verbatim>\<open>retries\<close> is a finite number, every iteration of the attempt loop ends
  with a return, a raise, or a continue to an attempt that exists: the statement after
  the loop is never reached. When \<^verbatim>\<open>retries\<close> is \<^verbatim>\<open>NaN\<close> and the URL and the headers of
  the call are accepted, the loop makes no attempt, the statement after the loop is
  reached and the call fails with the \<^verbatim>\<open>Request failed\<close> error.
\<close>

theorem post_loop_unreachable_for_numbers:
  "(retries c \<noteq> NaN \<longrightarrow> PostLoopThrow \<notin> set (res_trace (request h c p method path init)))
   \<and> (retries c = NaN \<and> call_args h c p method path init = Inr cargs
      \<longrightarrow> res_trace (request h c p method path init)
            = fst (snd (buildHeaders h c p init)) @ [PostLoopThrow]
        \<and> attempts (res_trace (request h c p method path init)) = 0
        \<and> res_outcome (request h c p method path init)
            = Inl (new_HTTPError ''Request failed'' None None))"
proof -
  let ?B = "fst (snd (buildHeaders h c p init))"
  have nb: "PostLoopThrow \<notin> set ?B"
    using buildHeaders_events[of h c p init] by auto
  have num: "PostLoopThrow \<notin> set (res_trace (request h c p method path init))"
    if "retries c \<noteq> NaN"
  proof -
    from that obtain r where r: "retries c = Num r" by (cases "retries c") auto
    show ?thesis
    proof (cases "call_args h c p method path init")
      case (Inl e)
      from request_Inl(2)[OF this] nb show ?thesis by auto
    next
      case (Inr a)
      have "less_number (Num (real 0)) (Num (max 1 (r + 1)))" by simp
      then have "PostLoopThrow \<notin> set (fst (attempt_loop c p init a (Num (max 1 (r + 1))) 0 None))"
        by (rule no_post_loop)
      with nb show ?thesis by (simp add: request_Inr[OF Inr] maxAttempts_Num[OF r])
    qed
  qed
  have nan: "res_trace (request h c p method path init) = ?B @ [PostLoopThrow]
        \<and> attempts (res_trace (request h c p method path init)) = 0
        \<and> res_outcome (request h c p method path init)
            = Inl (new_HTTPError ''Request failed'' None None)"
    if n: "retries c = NaN" and ca: "call_args h c p method path init = Inr cargs"
  proof -
    have L: "attempt_loop c p init cargs NaN 0 None
               = ([PostLoopThrow], Inl (new_HTTPError ''Request failed'' None None))"
      by (simp add: loop_exit)
    have t: "res_trace (request h c p method path init) = ?B @ [PostLoopThrow]"
      by (simp add: request_Inr[OF ca] maxAttempts_NaN[OF n] L)
    have a: "attempts (res_trace (request h c p method path init)) = 0"
      by (simp add: attempts_request_Inr[OF ca] maxAttempts_NaN[OF n] attempts_loop_NaN)
    have out: "res_outcome (request h c p method path init)
            = Inl (new_HTTPError ''Request failed'' None None)"
      by (simp add: request_Inr[OF ca] maxAttempts_NaN[OF n] L)
    from t a out show ?thesis by simp
  qed
  from num nan show ?thesis by blast
qed

theorem post_loop_unreachable_for_numbers_witness:
  "retries example_client \<noteq> NaN
   \<and> PostLoopThrow \<notin> set (res_trace (request example_heap example_client
        (scripted_platform (\<lambda>n. Rejected AbortError)) GET ''/a'' example_init))
   \<and> retries nan_client = NaN
   \<and> call_args nan_heap nan_client (scripted_platform (\<lambda>n. Rejected AbortError))
        GET ''/a'' example_init = Inr example_args
   \<and> res_trace (request nan_heap nan_client
        (scripted_platform (\<lambda>n. Rejected AbortError)) GET ''/a'' example_init)
       = [CallRandomUUID ''123e4567-e89b-42d3-a456-426614174000'', PostLoopThrow]"
proof -
  let ?p = "scripted_platform (\<lambda>n. Rejected AbortError)"
  have 1: "retries example_client \<noteq> NaN" by code_simp
  have 2: "retries nan_client = NaN" by code_simp
  have 3: "call_args nan_heap nan_client ?p GET ''/a'' example_init = Inr example_args"
    by code_simp
  have 4: "fst (snd (buildHeaders nan_heap nan_client ?p example_init))
             = [CallRandomUUID ''123e4567-e89b-42d3-a456-426614174000'']"
    by code_simp
  from post_loop_unreachable_for_numbers[of example_client example_heap ?p GET "''/a''"
      example_init example_args] 1
  have a: "PostLoopThrow \<notin> set (res_trace (request example_heap example_client ?p GET ''/a'' example_init))"
    by blast
  from post_loop_unreachable_for_numbers[of nan_client nan_heap ?p GET "''/a''"
      example_init example_args] 2 3
  have "res_trace (request nan_heap nan_client ?p GET ''/a'' example_init)
          = fst (snd (buildHeaders nan_heap nan_client ?p example_init)) @ [PostLoopThrow]"
    by blast
  then have b: "res_trace (request nan_heap nan_client ?p GET ''/a'' example_init)
       = [CallRandomUUID ''123e4567-e89b-42d3-a456-426614174000'', PostLoopThrow]"
    unfolding 4 by simp
  from 1 a 2 3 b show ?thesis by blast
qed

text \<open>
  C9, as stated, fails: \<^verbatim>\<open>buildUrl\<close> does not return the concatenation, it hands it to
  the platform's URL parser and returns what the parser serialises, and the query
  values go through the form-urlencoded serialiser. For the path \<^verbatim>\<open>/a b\<close> the
  concatenation is \<^verbatim>\<open>https://x.test/a b\<close> and the result is \<^verbatim>\<open>https://x.test/a%20b\<close>;
  for the query value \<^verbatim>\<open>x y&z\<close> the result carries \<^verbatim>\<open>q=x+y%26z\<close>, not the string itself.
\<close>

theorem buildUrl_normalises_counterexample:
  "baseUrl example_client @ ''/a b'' = ''https://x.test/a b''
   \<and> buildUrl example_client (scripted_platform (\<lambda>n. Rejected AbortError)) ''/a b'' None
       = Inr ''https://x.test/a%20b''
   \<and> buildUrl example_client (scripted_platform (\<lambda>n. Rejected AbortError)) ''/a b'' None
       \<noteq> Inr (baseUrl example_client @ ''/a b'')
   \<and> String_of (scripted_platform (\<lambda>n. Rejected AbortError)) (QString ''x y&z'') = ''x y&z''
   \<and> buildUrl example_client (scripted_platform (\<lambda>n. Rejected AbortError)) ''/foo''
        (Some [(''q'', QString ''x y&z'')])
       = Inr ''https://x.test/foo?q=x+y%26z''"
  by code_simp

text \<open>
  C9, amended. The constructor strips every trailing slash of \<^verbatim>\<open>baseUrl\<close>. \<^verbatim>\<open>buildUrl\<close>
  hands the URL parser the stripped base followed by the path, one slash put in front
  of the path unless it begins with one, and returns the serialisation of the parsed
  URL, its query replaced, when a query object is given, by the form-urlencoded pairs
  of the defined values, each converted with \<^verbatim>\<open>String\<close>; keys whose value is
  \<^verbatim>\<open>undefined\<close> are left out. Whenever the parser accepts the string and leaves it
  unchanged (nothing in it to normalise, no query and no fragment, no space at the end
  of an opaque path), the result is that string, followed, when the query object has a
  defined value, by \<^verbatim>\<open>?\<close> and those pairs. The instance below is the example of the
  claim: \<^verbatim>\<open>buildUrl("/foo", {a: 1, b: undefined})\<close> for the base \<^verbatim>\<open>https://x.test/\<close> is
  \<^verbatim>\<open>https://x.test/foo?a=1\<close>.
\<close>

theorem buildUrl_concatenates:
  assumes "new_URL p (baseUrl (snd (constructor h opts))
                       @ (if startsWith path ''/'' then path else ''/'' @ path)) = Inr u"
      and "url_base u = baseUrl (snd (constructor h opts))
                         @ (if startsWith path ''/'' then path else ''/'' @ path)"
      and "url_query u = None" and "url_fragment u = None"
      and "url_opaque u \<longrightarrow> strip_trailing_spaces (url_base u) = url_base u"
  shows "(\<exists>k. opt_baseUrl opts = baseUrl (snd (constructor h opts)) @ replicate k (CHR ''/''))
     \<and> (\<forall>b. baseUrl (snd (constructor h opts)) \<noteq> b @ ''/'')
     \<and> buildUrl (snd (constructor h opts)) p path query =
         Inr (URL_toString
               (case query of
                  None \<Rightarrow> u
                | Some q \<Rightarrow> URL_set_search u (USP_toString (defined_query_pairs p q))))
     \<and> buildUrl (snd (constructor h opts)) p path query =
         Inr (baseUrl (snd (constructor h opts))
              @ (if startsWith path ''/'' then path else ''/'' @ path)
              @ (case query of
                   None \<Rightarrow> []
                 | Some q \<Rightarrow> if defined_query_pairs p q = [] then []
                             else ''?'' @ USP_toString (defined_query_pairs p q)))"
proof -
  let ?c = "snd (constructor h opts)"
  let ?sp = "if startsWith path ''/'' then path else ''/'' @ path"
  have 1: "\<exists>k. opt_baseUrl opts = baseUrl ?c @ replicate k (CHR ''/'')"
    using strip_trailing_slashes_decomp[of "opt_baseUrl opts"] by (simp add: constructor_baseUrl)
  have 2: "\<forall>b. baseUrl ?c \<noteq> b @ ''/''"
    by (simp add: constructor_baseUrl strip_trailing_slashes_last)
  have 3: "buildUrl ?c p path query =
         Inr (URL_toString
               (case query of
                  None \<Rightarrow> u
                | Some q \<Rightarrow> URL_set_search u (USP_toString (defined_query_pairs p q))))"
    unfolding buildUrl_def assms(1) by (simp add: fold_query split: option.splits)
  have 4: "URL_toString
               (case query of
                  None \<Rightarrow> u
                | Some q \<Rightarrow> URL_set_search u (USP_toString (defined_query_pairs p q)))
         = baseUrl ?c @ ?sp
              @ (case query of
                   None \<Rightarrow> []
                 | Some q \<Rightarrow> if defined_query_pairs p q = [] then []
                             else ''?'' @ USP_toString (defined_query_pairs p q))"
  proof (cases query)
    case None
    then show ?thesis using assms(2-4) by (simp add: URL_toString_def)
  next
    case (Some q)
    let ?ps = "defined_query_pairs p q"
    show ?thesis
    proof (cases "?ps = []")
      case True
      have "URL_toString (URL_set_search u (USP_toString ?ps)) = url_base u"
        using assms(3-5) by (simp add: True USP_toString_Nil URL_set_search_def URL_toString_def)
      then show ?thesis using assms(2) by (simp add: Some True)
    next
      case False
      have "URL_set_search u (USP_toString ?ps) = u\<lparr>url_query := Some (USP_toString ?ps)\<rparr>"
        by (rule URL_set_search_form[OF USP_toString_nonempty[OF False] form_char_USP_toString])
      then show ?thesis using assms(2-4) by (simp add: Some False URL_toString_def)
    qed
  qed
  from 1 2 3 4 show ?thesis by simp
qed

theorem buildUrl_concatenates_witness:
  "baseUrl (snd (constructor [] example_options)) = ''https://x.test''
   \<and> opt_baseUrl example_options = ''https://x.test/''
   \<and> new_URL (scripted_platform (\<lambda>n. Rejected AbortError)) ''https://x.test/foo''
       = Inr \<lparr> url_special = True, url_opaque = False, url_base = ''https://x.test/foo'',
               url_query = None, url_fragment = None \<rparr>
   \<and> defined_query_pairs (scripted_platform (\<lambda>n. Rejected AbortError))
        [(''a'', QNumber (Num 1)), (''b'', QUndefined)] = [(''a'', ''1'')]
   \<and> buildUrl (snd (constructor [] example_options)) (scripted_platform (\<lambda>n. Rejected AbortError))
        ''/foo'' (Some [(''a'', QNumber (Num 1)), (''b'', QUndefined)])
       = Inr ''https://x.test/foo?a=1''"
proof -
  let ?p = "scripted_platform (\<lambda>n. Rejected AbortError)"
  let ?c = "snd (constructor [] example_options)"
  let ?u = "\<lparr> url_special = True, url_opaque = False, url_base = ''https://x.test/foo'',
              url_query = None, url_fragment = None \<rparr>"
  have b: "baseUrl ?c = ''https://x.test''" by code_simp
  have o: "opt_baseUrl example_options = ''https://x.test/''" by code_simp
  have s: "startsWith ''/foo'' ''/''" by code_simp
  have n: "new_URL ?p ''https://x.test/foo'' = Inr ?u" by code_simp
  have 1: "new_URL ?p (baseUrl ?c @ (if startsWith ''/foo'' ''/'' then ''/foo'' else ''/'' @ ''/foo''))
           = Inr ?u"
    unfolding b using s n by simp
  have 2: "url_base ?u = baseUrl ?c @ (if startsWith ''/foo'' ''/'' then ''/foo'' else ''/'' @ ''/foo'')"
    unfolding b using s by simp
  have 3: "url_query ?u = None" by simp
  have 4: "url_fragment ?u = None" by simp
  have 5: "url_opaque ?u \<longrightarrow> strip_trailing_spaces (url_base ?u) = url_base ?u" by simp
  have d: "defined_query_pairs ?p [(''a'', QNumber (Num 1)), (''b'', QUndefined)] = [(''a'', ''1'')]"
    by code_simp
  have t: "USP_toString [(''a'', ''1'')] = ''a=1''" by code_simp
  from buildUrl_concatenates[OF 1 2 3 4 5, of "Some [(''a'', QNumber (Num 1)), (''b'', QUndefined)]"]
  have "buildUrl ?c ?p ''/foo'' (Some [(''a'', QNumber (Num 1)), (''b'', QUndefined)])
       = Inr (baseUrl ?c
              @ (if startsWith ''/foo'' ''/'' then ''/foo'' else ''/'' @ ''/foo'')
              @ (case Some [(''a'', QNumber (Num 1)), (''b'', QUndefined)] of
                   None \<Rightarrow> []
                 | Some q \<Rightarrow> if defined_query_pairs ?p q = [] then []
                             else ''?'' @ USP_toString (defined_query_pairs ?p q)))"
    by blast
  then have "buildUrl ?c ?p ''/foo'' (Some [(''a'', QNumber (Num 1)), (''b'', QUndefined)])
       = Inr ''https://x.test/foo?a=1''"
    using s by (simp add: b d t)
  with b o n d show ?thesis by simp
qed

text \<open>
  C10. The URL, the headers and the serialised body are computed once, before the
  loop: every exchange of a call is issued with the same arguments (those
  \<^verbatim>\<open>request\<close> computed first), \<^verbatim>\<open>randomUUID\<close> is called at most once and never after
  the first timer is armed, and when neither the defaults nor the per-call headers
  supply an \<^verbatim>\<open>x-request-id\<close>, it is called exactly once and its result is the request
  id of every attempt. (A call whose URL or headers the platform refuses throws before
  any attempt.)
\<close>

theorem call_values_computed_once:
  assumes "call_args h c p method path init = Inr cargs"
  shows "fetched (res_trace (request h c p method path init))
           = replicate (attempts (res_trace (request h c p method path init))) cargs
     \<and> length (filter is_CallRandomUUID (res_trace (request h c p method path init))) \<le> 1
     \<and> filter is_CallRandomUUID
          (dropWhile (\<lambda>e. \<not> is_SetTimeout e) (res_trace (request h c p method path init))) = []
     \<and> (if supplied_request_id h c init
         then filter is_CallRandomUUID (res_trace (request h c p method path init)) = []
         else filter is_CallRandomUUID (res_trace (request h c p method path init))
                = [CallRandomUUID (randomUUID p)]
              \<and> Headers_get (fa_headers cargs) ''x-request-id''
                = Some (normalize_value (randomUUID p)))"
proof -
  let ?M = "Math_max (Num 1) (plus_number (retries c) (Num 1))"
  let ?B = "fst (snd (buildHeaders h c p init))"
  let ?L = "fst (attempt_loop c p init cargs ?M 0 None)"
  from assms obtain url hdrs where
    hd: "snd (snd (buildHeaders h c p init)) = Inr hdrs"
    and ca: "cargs = \<lparr> fa_url = url, fa_method = method, fa_headers = hdrs,
               fa_body = map_option (JSON_stringify p) (init_json init),
               fa_cache = init_cache init \<rparr>"
    by (rule call_args_Inr)
  have tr: "res_trace (request h c p method path init) = ?B @ ?L"
    by (simp add: request_Inr[OF assms])
  have B: "?B = [] \<or> ?B = [CallRandomUUID (randomUUID p)]"
    by (rule buildHeaders_events)
  have noL: "filter is_CallRandomUUID ?L = []"
    by (rule loop_no_uuid)
  have fB: "fetched ?B = []" "attempts ?B = 0" using B by (auto simp: attempts_def)
  have 1: "fetched (?B @ ?L) = replicate (attempts (?B @ ?L)) cargs"
    by (simp add: fetched_append attempts_append fB fetched_loop)
  have 2: "length (filter is_CallRandomUUID (?B @ ?L)) \<le> 1"
    using B noL by auto
  have "dropWhile (\<lambda>e. \<not> is_SetTimeout e) (?B @ ?L) = dropWhile (\<lambda>e. \<not> is_SetTimeout e) ?L"
    using B by auto
  moreover have "set (dropWhile (\<lambda>e. \<not> is_SetTimeout e) ?L) \<subseteq> set ?L"
    by (auto dest: set_dropWhileD)
  ultimately have 3: "filter is_CallRandomUUID (dropWhile (\<lambda>e. \<not> is_SetTimeout e) (?B @ ?L)) = []"
    using noL by (auto simp: filter_empty_conv)
  have 4: "if supplied_request_id h c init
         then filter is_CallRandomUUID (?B @ ?L) = []
         else filter is_CallRandomUUID (?B @ ?L) = [CallRandomUUID (randomUUID p)]
              \<and> Headers_get (fa_headers cargs) ''x-request-id''
                = Some (normalize_value (randomUUID p))"
    using buildHeaders_request_id[OF hd] noL by (simp add: ca split: if_splits)
  show ?thesis unfolding tr using 1 2 3 4 by simp
qed

theorem call_values_computed_once_witness:
  "call_args example_heap example_client (scripted_platform (\<lambda>n. Rejected AbortError))
      GET ''/a'' example_init = Inr example_args
   \<and> fetched (res_trace (request example_heap example_client
        (scripted_platform (\<lambda>n. Rejected AbortError)) GET ''/a'' example_init))
       = replicate 3 example_args
   \<and> Headers_get (fa_headers example_args) ''x-request-id''
       = Some ''123e4567-e89b-42d3-a456-426614174000''"
proof -
  let ?p = "scripted_platform (\<lambda>n. Rejected AbortError)"
  have 1: "call_args example_heap example_client ?p GET ''/a'' example_init = Inr example_args"
    by code_simp
  have 2: "attempts (res_trace (request example_heap example_client ?p GET ''/a'' example_init)) = 3"
    by code_simp
  have 3: "\<not> supplied_request_id example_heap example_client example_init"
    by code_simp
  have 4: "normalize_value (randomUUID ?p) = ''123e4567-e89b-42d3-a456-426614174000''"
    by code_simp
  from call_values_computed_once[OF 1] 2 3 4
  have "fetched (res_trace (request example_heap example_client ?p GET ''/a'' example_init))
       = replicate 3 example_args"
    and "Headers_get (fa_headers example_args) ''x-request-id''
           = Some ''123e4567-e89b-42d3-a456-426614174000''"
    by simp_all
  with 1 show ?thesis by simp
qed

end
